theory Spec2Isabelle
  imports Complex_Main "HOL-Library.Word" "HOL-Library.Product_Lexorder"
begin

section \<open>JavaScript strings\<close>

text \<open>
  A JavaScript string is modelled as a list of characters, one \<^typ>\<open>char\<close> per code unit; the
  model covers strings whose code units are below 256. The white space of \<^verbatim>\<open>trim()\<close> and
  of the regular expression class \<^verbatim>\<open>\s\<close> is, in that range, TAB, LF, VT, FF, CR, space and
  the no-break space.
\<close>

definition isSpace :: "char \<Rightarrow> bool" where
  "isSpace c = (c \<in> set [CHR 0x09, CHR 0x0A, CHR 0x0B, CHR 0x0C, CHR 0x0D, CHR 0x20, CHR 0xA0])"

definition trim :: "string \<Rightarrow> string" where
  "trim s = rev (dropWhile isSpace (rev (dropWhile isSpace s)))"

definition startsWith :: "string \<Rightarrow> string \<Rightarrow> bool" where
  "startsWith s p = (take (length p) s = p)"

definition endsWith :: "string \<Rightarrow> string \<Rightarrow> bool" where
  "endsWith s p = (length p \<le> length s \<and> drop (length s - length p) s = p)"

text \<open>\<^verbatim>\<open>s.includes(p)\<close>: \<open>p\<close> occurs in \<open>s\<close> as a contiguous substring.\<close>

fun str_includes :: "string \<Rightarrow> string \<Rightarrow> bool" where
  "str_includes [] p = (p = [])"
| "str_includes (c # cs) p = (startsWith (c # cs) p \<or> str_includes cs p)"

text \<open>
  \<^verbatim>\<open>toLowerCase()\<close> on code units below 256: the ASCII capitals (65 to 90) and the Latin-1
  capitals (192 to 222, without the multiplication sign 215, which has no case) move up
  by 32; every other code unit of that range is its own lower case.
\<close>

definition lowerChar :: "char \<Rightarrow> char" where
  "lowerChar c = (let n = (of_char c :: nat) in
     if (65 \<le> n \<and> n \<le> 90) \<or> (192 \<le> n \<and> n \<le> 222 \<and> n \<noteq> 215) then char_of (n + 32) else c)"

definition toLowerCase :: "string \<Rightarrow> string" where
  "toLowerCase s = map lowerChar s"

text \<open>
  \<^verbatim>\<open>s.substring(a, b)\<close> for \<open>0 \<le> a \<le> b \<le> length s\<close>, and \<^verbatim>\<open>s.slice(a)\<close> for \<open>0 \<le> a\<close>.
\<close>

definition substring :: "string \<Rightarrow> nat \<Rightarrow> nat \<Rightarrow> string" where
  "substring s a b = take (b - a) (drop a s)"

text \<open>
  \<^verbatim>\<open>s.split(/\s+/)\<close>: the pieces between maximal runs of white space. A leading or a
  trailing run leaves an empty first or last piece, and the empty string gives one empty
  piece, as in JavaScript.
\<close>

function splitWs :: "string \<Rightarrow> string \<Rightarrow> string list" where
  "splitWs [] cur = [cur]"
| "splitWs (c # cs) cur =
     (if isSpace c then cur # splitWs (dropWhile isSpace cs) [] else splitWs cs (cur @ [c]))"
  by pat_completeness auto
termination
  by (relation "measure (\<lambda>(s, cur). length s)")
     (auto simp: length_dropWhile_le less_Suc_eq_le)

definition split_ws :: "string \<Rightarrow> string list" where
  "split_ws s = splitWs s []"

text \<open>
  \<^verbatim>\<open>s.lastIndexOf(p, from)\<close> for a non-empty \<open>p\<close> and \<open>from \<ge> 0\<close>: the largest index
  \<open>k \<le> from\<close> at which \<open>p\<close> occurs in \<open>s\<close>, and \<open>-1\<close> when there is none. The scan runs
  forward over the suffixes of \<open>s\<close> and keeps the last index that matched.
\<close>

fun lastIndexScan :: "string \<Rightarrow> string \<Rightarrow> nat \<Rightarrow> nat \<Rightarrow> int \<Rightarrow> int" where
  "lastIndexScan [] p k from best = best"
| "lastIndexScan (c # cs) p k from best =
     (if from < k then best
      else lastIndexScan cs p (Suc k) from (if startsWith (c # cs) p then int k else best))"

definition lastIndexOf :: "string \<Rightarrow> string \<Rightarrow> nat \<Rightarrow> int" where
  "lastIndexOf s p from = lastIndexScan s p 0 from (- 1)"

section \<open>Audio codec: fixed-size PCM framing\<close>

text \<open>
  A Node \<^verbatim>\<open>Buffer\<close> is modelled as a list of bytes. \<^verbatim>\<open>buf.slice(a, b)\<close> with
  \<open>0 \<le> a \<le> b \<le> length buf\<close> (the only way \<^verbatim>\<open>chunkPCM\<close> calls it) is the bytes at the
  positions \<open>a, \<dots>, b - 1\<close>.
\<close>

type_synonym byte = "8 word"
type_synonym buffer = "byte list"

definition slice :: "'a list \<Rightarrow> nat \<Rightarrow> nat \<Rightarrow> 'a list" where
  "slice buf a b = take (b - a) (drop a buf)"

text \<open>
  \<^verbatim>\<open>
  chunkPCM(pcmBuffer, chunkSize = 640) {
    const chunks = [];
    for (let i = 0; i < pcmBuffer.length; i += chunkSize) {
      chunks.push(pcmBuffer.slice(i, Math.min(i + chunkSize, pcmBuffer.length)));
    }
    return chunks;
  }
  \<close>
  The loop is the recursion below, with the loop variable \<open>i\<close> and the array \<open>chunks\<close>
  as arguments. With \<open>chunkSize = 0\<close> and a non-empty buffer the source never leaves the
  loop; the model is a partial function, whose value is \<open>None\<close> exactly then.
\<close>

partial_function (option) chunkPCM_loop ::
  "buffer \<Rightarrow> nat \<Rightarrow> nat \<Rightarrow> buffer list \<Rightarrow> buffer list option" where
  "chunkPCM_loop pcmBuffer chunkSize i chunks =
     (if i < length pcmBuffer
      then chunkPCM_loop pcmBuffer chunkSize (i + chunkSize)
             (chunks @ [slice pcmBuffer i (min (i + chunkSize) (length pcmBuffer))])
      else Some chunks)"

declare chunkPCM_loop.simps [code]

definition chunkPCM :: "buffer \<Rightarrow> nat \<Rightarrow> buffer list option" where
  "chunkPCM pcmBuffer chunkSize = chunkPCM_loop pcmBuffer chunkSize 0 []"

section \<open>Outbound-call endpoint\<close>

text \<open>
  \<^verbatim>\<open>app.post('/call', ...)\<close> of \<^verbatim>\<open>server.js\<close>. The two body fields are JSON values; the
  environment maps a variable name to its string, if set. \<^verbatim>\<open>ExotelVoicebotCaller.makeCall\<close>
  lives in \<^verbatim>\<open>index.js\<close>, which is not part of the sources at hand: the handler is modelled
  for every outcome of that call, given as the parameter \<open>makeCall\<close>.
\<close>

datatype jsvalue = JUndefined | JNull | JBool bool | JNumber int | JString string | JObject

fun truthy :: "jsvalue \<Rightarrow> bool" where
  "truthy JUndefined = False"
| "truthy JNull = False"
| "truthy (JBool b) = b"
| "truthy (JNumber n) = (n \<noteq> 0)"
| "truthy (JString s) = (s \<noteq> [])"
| "truthy JObject = True"

type_synonym env = "string \<Rightarrow> string option"

text \<open>\<^verbatim>\<open>!process.env.X\<close> is true when the variable is unset or the empty string.\<close>

definition envMissing :: "env \<Rightarrow> string \<Rightarrow> bool" where
  "envMissing e k = (case e k of None \<Rightarrow> True | Some v \<Rightarrow> v = [])"

datatype call_result = CallSucceeded string | CallFailed | CallThrew

datatype call_body =
    MissingConfiguration "string list"
  | InvalidPhoneNumber
  | CallInitiated jsvalue string
  | CallNotInitiated jsvalue
  | ServerError

record http_response =
  status :: nat
  success :: bool
  body :: call_body

definition requiredKeys :: "string list" where
  "requiredKeys =
     [''EXOTEL_API_KEY'', ''EXOTEL_API_TOKEN'', ''EXOTEL_SID'', ''EXOTEL_APP_ID'', ''EXOTEL_CALLER_ID'']"

text \<open>
  The handler, in the order of the source: the default target number, the configuration
  check, the check of the number, the call. A target that is not a string has no
  \<^verbatim>\<open>startsWith\<close>: the \<^verbatim>\<open>TypeError\<close> lands in the handler's \<^verbatim>\<open>catch\<close>, which answers 500, as
  it does when \<^verbatim>\<open>makeCall\<close> throws.
\<close>

definition post_call ::
  "env \<Rightarrow> (jsvalue \<Rightarrow> jsvalue \<Rightarrow> call_result) \<Rightarrow> jsvalue \<Rightarrow> jsvalue \<Rightarrow> http_response" where
  "post_call e makeCall to from =
     (let targetNumber = (if truthy to then to else JString ''+919324606985'') in
      if envMissing e ''EXOTEL_API_KEY'' \<or> envMissing e ''EXOTEL_API_TOKEN''
         \<or> envMissing e ''EXOTEL_SID'' \<or> envMissing e ''EXOTEL_APP_ID''
         \<or> envMissing e ''EXOTEL_CALLER_ID''
      then \<lparr>status = 400, success = False, body = MissingConfiguration requiredKeys\<rparr>
      else (case targetNumber of
              JString s \<Rightarrow>
                if \<not> truthy targetNumber \<or> \<not> startsWith s ''+''
                then \<lparr>status = 400, success = False, body = InvalidPhoneNumber\<rparr>
                else (case makeCall targetNumber from of
                        CallSucceeded callSid \<Rightarrow>
                          \<lparr>status = 200, success = True, body = CallInitiated targetNumber callSid\<rparr>
                      | CallFailed \<Rightarrow>
                          \<lparr>status = 500, success = False, body = CallNotInitiated targetNumber\<rparr>
                      | CallThrew \<Rightarrow> \<lparr>status = 500, success = False, body = ServerError\<rparr>)
            | _ \<Rightarrow> \<lparr>status = 500, success = False, body = ServerError\<rparr>))"

text \<open>The configuration keys that are missing in an environment, in the order of the check.\<close>

definition missingKeys :: "env \<Rightarrow> string list" where
  "missingKeys e = filter (envMissing e) requiredKeys"

text \<open>
  Two inputs for the examples below: an environment in which every variable but one is
  set, and a \<^verbatim>\<open>makeCall\<close> for requests that are answered before the call is made.
\<close>

definition envWithout :: "string \<Rightarrow> env" where
  "envWithout k = (\<lambda>x. if x = k then None else Some ''configured'')"

definition callNotReached :: "jsvalue \<Rightarrow> jsvalue \<Rightarrow> call_result" where
  "callNotReached t f = CallThrew"

section \<open>Knowledge base: chunking on ingest\<close>

text \<open>
  \<^verbatim>\<open>chunkText(text, chunkSize = 1000, overlap = 200)\<close> of the knowledge-base service.
  Sizes and positions are natural numbers. Where the source subtracts (\<^verbatim>\<open>chunkSize - overlap\<close>
  under \<^verbatim>\<open>Math.max(1, _)\<close>, and \<^verbatim>\<open>end - overlap\<close> under \<^verbatim>\<open>Math.max(start + 1, _)\<close>) a negative
  difference loses against the other argument of the maximum, so the truncated subtraction
  of \<^typ>\<open>nat\<close> gives the same value. The comparison \<^verbatim>\<open>bestBreak > start + chunkSize * 0.5\<close>
  is written with both sides doubled.
\<close>

definition maxChunksFor :: "nat \<Rightarrow> nat \<Rightarrow> nat \<Rightarrow> nat" where
  \<comment> \<open>\<^verbatim>\<open>Math.ceil(textLength / Math.max(1, chunkSize - overlap)) + 100\<close>\<close>
  "maxChunksFor textLength chunkSize overlap =
     (let d = max 1 (chunkSize - overlap) in (textLength + d - 1) div d + 100)"

text \<open>The end of the window that starts at \<open>start\<close>: the sentence or paragraph snapping.\<close>

definition windowEnd :: "string \<Rightarrow> nat \<Rightarrow> nat \<Rightarrow> nat" where
  "windowEnd text chunkSize start =
     (let end0 = min (start + chunkSize) (length text) in
      if end0 < length text then
        (let sentenceEnd = lastIndexOf text ''.'' end0;
             paragraphEnd = lastIndexOf text [CHR 0x0A, CHR 0x0A] end0;
             bestBreak = max sentenceEnd paragraphEnd
         in if 2 * bestBreak > 2 * int start + int chunkSize then nat (bestBreak + 1) else end0)
      else end0)"

text \<open>
  The \<^verbatim>\<open>while\<close> loop. The array \<open>chunks\<close> holds, for every chunk pushed, the window
  \<open>(start, end)\<close> it was cut from beside the trimmed text: the windows are what the coverage
  property speaks about, and \<open>chunkText\<close> returns the texts alone. The loop is a partial
  function, so that its returning is a theorem and not an assumption.
\<close>

type_synonym text_window = "nat \<times> nat \<times> string"

partial_function (option) chunkText_loop ::
  "string \<Rightarrow> nat \<Rightarrow> nat \<Rightarrow> nat \<Rightarrow> nat \<Rightarrow> text_window list \<Rightarrow> text_window list option" where
  "chunkText_loop text chunkSize overlap maxChunks start chunks =
     (if start < length text \<and> length chunks < maxChunks then
        (let end = windowEnd text chunkSize start;
             chunk = trim (substring text start end);
             chunks' = (if length chunk > 0 then chunks @ [(start, end, chunk)] else chunks)
         in if end \<ge> length text then Some chunks'
            else chunkText_loop text chunkSize overlap maxChunks
                   (max (start + 1) (end - overlap)) chunks')
      else Some chunks)"

declare chunkText_loop.simps [code]

definition chunkText_windows :: "string \<Rightarrow> nat \<Rightarrow> nat \<Rightarrow> text_window list option" where
  "chunkText_windows text chunkSize overlap =
     (if text = [] \<or> length (trim text) = 0 then Some []
      else chunkText_loop text chunkSize overlap
             (maxChunksFor (length text) chunkSize overlap) 0 [])"

definition chunkText :: "string \<Rightarrow> nat \<Rightarrow> nat \<Rightarrow> string list option" where
  "chunkText text chunkSize overlap =
     map_option (map (\<lambda>(start, end, chunk). chunk)) (chunkText_windows text chunkSize overlap)"

text \<open>Position \<open>p\<close> of the text lies inside one of the emitted windows.\<close>

definition positionCovered :: "text_window list \<Rightarrow> nat \<Rightarrow> bool" where
  "positionCovered ws p = list_ex (\<lambda>(start, end, chunk). start \<le> p \<and> p < end) ws"

definition coveredBy :: "text_window list option \<Rightarrow> nat \<Rightarrow> bool" where
  "coveredBy r p = (case r of None \<Rightarrow> False | Some ws \<Rightarrow> positionCovered ws p)"

text \<open>
  A text of 600 characters, 400 letters, a full stop and 199 letters, used below with a
  chunk size of 400 and an overlap of 390.
\<close>

definition oneSentenceText :: string where
  "oneSentenceText = replicate 400 (CHR ''a'') @ ''.'' @ replicate 199 (CHR ''a'')"

text \<open>
  A text of 234 sentences, each of 449 letters and a full stop, used below with the chunk
  size 1000 and the overlap 200 that the ingest of documents passes.
\<close>

definition sentence450 :: string where
  "sentence450 = replicate 449 (CHR ''a'') @ ''.''"

definition manySentencesText :: string where
  "manySentencesText = concat (replicate 234 sentence450)"

section \<open>Knowledge base: retrieval\<close>

text \<open>
  \<^verbatim>\<open>getRelevantChunks(query, maxChunks = 3)\<close>. The chunks that \<^verbatim>\<open>loadAllChunks()\<close> reads from
  the store (or its cache) are the parameter \<open>allChunks\<close>; \<open>maxChunks\<close> is a natural number
  (the callers pass 3).

  The source counts, for each query word, the matches of the regular expression
  \<^verbatim>\<open>new RegExp(`\\b${word}\\b`, 'gi')\<close> in the lower-cased chunk. The word goes into the
  pattern unescaped, so what is counted is decided by the regular-expression engine of the
  platform: a word such as \<^verbatim>\<open>pricing.\<close> matches with its full stop as a wildcard, and a
  word such as \<^verbatim>\<open>c++\<close> is no pattern at all, the constructor throws. The engine is the
  parameter \<open>rx\<close> of the model: \<open>rx word text\<close> is \<open>Some n\<close> when the pattern built from
  \<open>word\<close> has \<open>n\<close> matches in \<open>text\<close>, and \<open>None\<close> when building it throws. The properties
  below hold for every engine.
\<close>

type_synonym regex_engine = "string \<Rightarrow> string \<Rightarrow> nat option"

text \<open>\<^verbatim>\<open>/^#+\s|:$/.test(chunk)\<close>: a run of \<open>#\<close> at the start followed by white space, or a final colon.\<close>

definition headingLike :: "string \<Rightarrow> bool" where
  "headingLike chunk =
     ((startsWith chunk ''#''
         \<and> (case dropWhile (\<lambda>c. c = CHR ''#'') chunk of [] \<Rightarrow> False | c # cs \<Rightarrow> isSpace c))
      \<or> endsWith chunk '':'')"

text \<open>
  The \<^verbatim>\<open>forEach\<close> over the query words, when no pattern throws (the case of a throw is
  \<open>patternThrows\<close> below, and is decided in \<open>getRelevantChunks\<close> before any score is
  used).
\<close>

definition tokenMatches :: "regex_engine \<Rightarrow> string list \<Rightarrow> string \<Rightarrow> nat" where
  "tokenMatches rx queryWords chunk =
     sum_list (map (\<lambda>word. case rx word (toLowerCase chunk) of None \<Rightarrow> 0 | Some n \<Rightarrow> n)
                 queryWords)"

definition chunkScore :: "regex_engine \<Rightarrow> string list \<Rightarrow> string \<Rightarrow> string \<Rightarrow> nat" where
  "chunkScore rx queryWords q chunk =
     tokenMatches rx queryWords chunk
       + (if str_includes (toLowerCase chunk) q then 5 else 0)
       + (if headingLike chunk then 1 else 0)"

text \<open>
  Some \<^verbatim>\<open>new RegExp\<close> of the scoring throws: the exception leaves \<^verbatim>\<open>allChunks.map\<close> and is
  caught by the \<^verbatim>\<open>catch\<close> of \<open>getRelevantChunks\<close>.
\<close>

definition patternThrows :: "regex_engine \<Rightarrow> string list \<Rightarrow> string list \<Rightarrow> bool" where
  "patternThrows rx queryWords allChunks =
     list_ex (\<lambda>chunk. list_ex (\<lambda>word. rx word (toLowerCase chunk) = None) queryWords) allChunks"

definition queryPhrase :: "string \<Rightarrow> string" where
  "queryPhrase query = trim (toLowerCase query)"

definition queryWordsOf :: "string \<Rightarrow> string list" where
  "queryWordsOf query = filter (\<lambda>word. length word \<ge> 2) (split_ws (queryPhrase query))"

text \<open>
  The scored chunks \<open>(chunk, score, idx)\<close>, sorted by score descending and index ascending
  (the comparator of the source is a total order on entries of distinct index, so the sorted
  array is unique), without the entries of score 0.
\<close>

type_synonym scored_chunk = "string \<times> nat \<times> nat"

definition rankedChunks :: "regex_engine \<Rightarrow> string \<Rightarrow> string list \<Rightarrow> scored_chunk list" where
  "rankedChunks rx query allChunks =
     (let q = queryPhrase query;
          queryWords = queryWordsOf query;
          scored = map (\<lambda>(idx, chunk). (chunk, chunkScore rx queryWords q chunk, idx))
                     (enumerate 0 allChunks)
      in filter (\<lambda>(chunk, score, idx). score > 0)
           (sort_key (\<lambda>(chunk, score, idx). (- int score, idx)) scored))"

definition getRelevantChunks :: "regex_engine \<Rightarrow> string \<Rightarrow> nat \<Rightarrow> string list \<Rightarrow> string list" where
  "getRelevantChunks rx query maxChunks allChunks =
     (if query = [] \<or> length (trim query) = 0 then []
      else if length allChunks = 0 then []
      else if length (queryWordsOf query) = 0 then []
      else if patternThrows rx (queryWordsOf query) allChunks then []
      else map (\<lambda>(chunk, score, idx). chunk) (take maxChunks (rankedChunks rx query allChunks)))"





text \<open>
  The engine on the words of the examples. A word made of letters and digits only holds no
  metacharacter, so its pattern is the word itself between two word boundaries \<^verbatim>\<open>\b\<close>, and
  the global match counts its occurrences from left to right, each search resuming after
  the previous match. \<open>wordOccurrences\<close> is that count; \<open>plainWordEngine\<close> is an engine that
  gives it for every word, and so agrees with the platform on the words made of letters and
  digits, the only ones it is used with.
\<close>

definition isWordChar :: "char \<Rightarrow> bool" where
  "isWordChar c = (let n = (of_char c :: nat) in
     (48 \<le> n \<and> n \<le> 57) \<or> (65 \<le> n \<and> n \<le> 90) \<or> n = 95 \<or> (97 \<le> n \<and> n \<le> 122))"

text \<open>
  \<^verbatim>\<open>\b\<close> between two neighbouring characters (or the start or end of the text, \<open>None\<close>):
  exactly one of the two is a word character.
\<close>

definition wordBoundary :: "char option \<Rightarrow> char option \<Rightarrow> bool" where
  "wordBoundary a b =
     ((case a of None \<Rightarrow> False | Some c \<Rightarrow> isWordChar c)
        \<noteq> (case b of None \<Rightarrow> False | Some c \<Rightarrow> isWordChar c))"








section \<open>Session state, outbound frames and inbound messages\<close>

text \<open>
  The session object that \<^verbatim>\<open>server.js\<close> creates for a WebSocket connection, without the
  fields that only serve logging (\<^verbatim>\<open>callId\<close>, the two \<^verbatim>\<open>...TrackLogged\<close> flags) and with the
  socket kept apart (see \<open>world\<close> below). \<^verbatim>\<open>streamSid\<close> is \<open>None\<close> for \<^verbatim>\<open>null\<close>; the handlers
  store only non-empty strings in it. \<^verbatim>\<open>sampleRate\<close> is the query parameter parsed as a
  non-negative integer. \<^verbatim>\<open>sequenceNumber\<close> is a JavaScript number that only ever grows by
  one from 0; it is modelled as a natural number (exact below \<open>2^53\<close>).
\<close>

datatype role = System | User | Assistant

record history_entry =
  role :: role
  content :: string

record session =
  streamSid :: "string option"
  sampleRate :: nat
  audioBuffer :: "buffer list"
  conversationHistory :: "history_entry list"
  customParameters :: "(string \<times> string) list"
  sequenceNumber :: nat
  isActive :: bool
  pendingClear :: bool
  processingAudio :: bool
  greetingSent :: bool
  greetingInProgress :: bool

definition newSession :: "nat \<Rightarrow> session" where
  "newSession rate =
     \<lparr>streamSid = None, sampleRate = rate, audioBuffer = [], conversationHistory = [],
      customParameters = [], sequenceNumber = 0, isActive = False, pendingClear = False,
      processingAudio = False, greetingSent = False, greetingInProgress = False\<rparr>"

text \<open>
  An outbound frame, as passed to \<^verbatim>\<open>ws.send\<close>: a \<^verbatim>\<open>media\<close> frame with the session's
  \<^verbatim>\<open>stream_sid\<close>, the sequence number (sent as its decimal string) and the chunk (sent in
  base64), or a \<^verbatim>\<open>mark\<close> frame with its name.
\<close>

datatype frame =
    Media "string option" nat buffer
  | Mark "string option" string

fun mediaSeqs :: "frame list \<Rightarrow> nat list" where
  "mediaSeqs [] = []"
| "mediaSeqs (Media sid n chunk # fs) = n # mediaSeqs fs"
| "mediaSeqs (Mark sid name # fs) = mediaSeqs fs"

fun mediaPayloads :: "frame list \<Rightarrow> buffer list" where
  "mediaPayloads [] = []"
| "mediaPayloads (Media sid n chunk # fs) = chunk # mediaPayloads fs"
| "mediaPayloads (Mark sid name # fs) = mediaPayloads fs"

fun markNames :: "frame list \<Rightarrow> string list" where
  "markNames [] = []"
| "markNames (Media sid n chunk # fs) = markNames fs"
| "markNames (Mark sid name # fs) = name # markNames fs"

text \<open>
  A parsed inbound message, reduced to what the handlers read. \<open>msgEvent\<close> is
  \<^verbatim>\<open>message.event\<close> (empty when absent); \<open>msgClear\<close> says that \<^verbatim>\<open>message.clear\<close> is truthy;
  \<open>msgStreamSid\<close> is \<^verbatim>\<open>message.stream_sid || message.streamSid\<close> (empty when both are
  absent); \<open>msgCustomParameters\<close> is \<^verbatim>\<open>message.<event>?.custom_parameters ||
  message.custom_parameters\<close>, an object with string values, and \<open>None\<close> when that is
  absent; \<open>msgPayload\<close> is \<open>None\<close> when \<^verbatim>\<open>message.media\<close> or its \<^verbatim>\<open>payload\<close> is missing or
  the empty string, and otherwise the bytes \<^verbatim>\<open>Buffer.from(payload, 'base64')\<close> that the payload
  string decodes to (none at all for a payload such as \<^verbatim>\<open>"="\<close>); \<open>msgTrack\<close> is
  \<^verbatim>\<open>message.media.track\<close>. Messages that carry values of other types in these fields are
  outside the model.
\<close>

record inbound =
  msgEvent :: string
  msgClear :: bool
  msgStreamSid :: string
  msgCustomParameters :: "(string \<times> string) list option"
  msgPayload :: "buffer option"
  msgTrack :: string

definition eventMessage :: "string \<Rightarrow> inbound" where
  "eventMessage e =
     \<lparr>msgEvent = e, msgClear = False, msgStreamSid = [], msgCustomParameters = None,
      msgPayload = None, msgTrack = []\<rparr>"

section \<open>The event loop of a session\<close>

text \<open>
  JavaScript runs one callback at a time, and an \<^verbatim>\<open>async\<close> function gives up control only
  at an \<^verbatim>\<open>await\<close>. The behaviour of a session is therefore a sequence of atomic segments:
  the handling of one inbound message, or the resumption of one suspended \<^verbatim>\<open>async\<close> call
  after the operation it awaits (a timer, an HTTP request) has completed, up to its next
  \<^verbatim>\<open>await\<close>. The \<open>world\<close> holds the session, the socket and the suspended calls; an
  \<open>action\<close> names a segment together with what the outside delivers (the message, the
  synthesized audio, the transcript, the deltas of the reply); \<open>exec\<close> runs the segment.
  Which action comes next is up to the outside: every interleaving is a list of actions.

  Suspended calls of \<^verbatim>\<open>streamTTSAudio\<close> are the entries of \<open>streams\<close>, numbered in the order
  of their start; an entry is \<open>None\<close> once the call has returned or thrown (its promise
  is settled). \<open>Synthesizing\<close> awaits \<^verbatim>\<open>ttsService.synthesize\<close> (and \<^verbatim>\<open>resamplePCM\<close>, when
  the rates differ); \<open>Streaming chunks i\<close> awaits the 10 ms timer before iteration \<open>i\<close>
  of the \<^verbatim>\<open>for\<close> loop.
\<close>

datatype stream_owner = GreetingStream | FragmentStream nat

datatype stream_phase = Synthesizing | Streaming "buffer list" nat

record stream_task =
  owner :: stream_owner
  spokenText :: string
  sendMark :: bool
  phase :: stream_phase

text \<open>
  A turn is one call of \<^verbatim>\<open>processUserAudio\<close>. Its phase is the \<^verbatim>\<open>await\<close> it is suspended
  at; \<open>textBuffer\<close> and \<open>pendingTTS\<close> are the variables of that name, which the callback
  \<^verbatim>\<open>onToken\<close> closes over (\<open>pendingTTS\<close> holds the number of the stream whose promise it
  stores). A call of \<open>onToken\<close> suspended at \<^verbatim>\<open>await pendingTTS\<close> is a \<open>waiter\<close>: the
  stream it awaits and what it does when resumed.
\<close>

datatype turn_phase =
    AwaitStt
  | AwaitPersona string
  | AwaitChunks string
  | AwaitFetch
  | Reading string
  | Returned

record turn =
  turnPhase :: turn_phase
  textBuffer :: string
  pendingTTS :: "nat option"

datatype continuation = StartFragment nat string bool | ResetPending nat

record world =
  sess :: session
  wsOpen :: bool
  wire :: "frame list"
  streams :: "stream_task option list"
  silences :: "(buffer list \<times> nat) option list"
  turns :: "turn list"
  waiters :: "(nat \<times> continuation) list"
  sttCalls :: "buffer list"
  llmPrompts :: "string list"

text \<open>
  \<open>wsOpen\<close> is \<^verbatim>\<open>ws.readyState === 1\<close>; \<open>wire\<close> lists the frames sent so far; \<open>sttCalls\<close>
  lists the buffers \<^verbatim>\<open>sttService.transcribePCM\<close> was called with, and \<open>llmPrompts\<close> the
  prompts posted to the LLM.
\<close>

definition newWorld :: "nat \<Rightarrow> world" where
  "newWorld rate =
     \<lparr>sess = newSession rate, wsOpen = True, wire = [], streams = [], silences = [],
      turns = [], waiters = [], sttCalls = [], llmPrompts = []\<rparr>"

text \<open>
  What the deployment fixes: whether \<^verbatim>\<open>GEMINI_API_KEY\<close> is set, the value of
  \<^verbatim>\<open>GREETING_TEXT\<close> (empty when unset), and \<^verbatim>\<open>postProcessReply\<close>, which enters the model as
  a function from the reply to the processed reply: everything proved below holds for
  every such function.
\<close>

record deployment =
  geminiApiKey :: bool
  envGreetingText :: string
  postProcessReply :: "string \<Rightarrow> string"

subsection \<open>Sending frames\<close>

text \<open>
  The four lines \<^verbatim>\<open>const message = {event: 'media', stream_sid: session.streamSid,
  sequence_number: session.sequenceNumber.toString(), ...}; ws.send(JSON.stringify(message));
  session.sequenceNumber++;\<close> which occur in \<^verbatim>\<open>streamTTSAudio\<close> and in
  \<^verbatim>\<open>sendFallbackSilence\<close>, and the sending of a mark. (The same lines stand in
  \<^verbatim>\<open>streamPCMChunksToExotel\<close> of the TTS service, which nothing calls.)
\<close>

definition sendMedia :: "buffer \<Rightarrow> world \<Rightarrow> world" where
  "sendMedia chunk w =
     w\<lparr>wire := wire w @ [Media (streamSid (sess w)) (sequenceNumber (sess w)) chunk],
       sess := (sess w)\<lparr>sequenceNumber := sequenceNumber (sess w) + 1\<rparr>\<rparr>"

definition sendMarkFrame :: "string \<Rightarrow> world \<Rightarrow> world" where
  "sendMarkFrame name w = w\<lparr>wire := wire w @ [Mark (streamSid (sess w)) name]\<rparr>"

definition chunkSizeFor :: "nat \<Rightarrow> nat" where
  "chunkSizeFor rate = (if rate = 8000 then 3200 else 6400)"

subsection \<open>Fallback silence\<close>

text \<open>
  \<^verbatim>\<open>sendFallbackSilence\<close>: the loop runs its first iteration in the segment of the call,
  and one more iteration at each tick of its timer. An entry of \<open>silences\<close> is the array
  of chunks and the index of the next one.
\<close>

definition sendFallbackSilence_loop :: "nat \<Rightarrow> buffer list \<Rightarrow> nat \<Rightarrow> world \<Rightarrow> world" where
  "sendFallbackSilence_loop k chunks i w =
     (if i < length chunks \<and> wsOpen w
      then (sendMedia (chunks ! i) w)\<lparr>silences := (silences w)[k := Some (chunks, i + 1)]\<rparr>
      else (if wsOpen w then sendMarkFrame ''fallback_silence_done'' w else w)
             \<lparr>silences := (silences w)[k := None]\<rparr>)"

definition sendFallbackSilence :: "world \<Rightarrow> world" where
  "sendFallbackSilence w =
     (if \<not> isActive (sess w) then w
      else if \<not> wsOpen w then w
      else if streamSid (sess w) = None then w
      else (let silenceLength = sampleRate (sess w) * 2 * 1;
                silenceBuffer = replicate silenceLength (0 :: byte);
                chunkSize = chunkSizeFor (sampleRate (sess w))
            in case chunkPCM silenceBuffer chunkSize of
                 None \<Rightarrow> w
               | Some chunks \<Rightarrow>
                   sendFallbackSilence_loop (length (silences w)) chunks 0
                     (w\<lparr>silences := silences w @ [None]\<rparr>)))"

subsection \<open>Streaming a text to the wire\<close>

text \<open>
  \<^verbatim>\<open>streamTTSAudio(ws, session, text, sendMark)\<close>, cut at its \<^verbatim>\<open>await\<close>s.

  \<open>streamTTSAudio_settled\<close> is what runs when the call has returned (\<open>ok\<close>) or thrown:
  for the greeting, the \<^verbatim>\<open>.then\<close> and \<^verbatim>\<open>.catch\<close> callbacks of the three event handlers; for
  a fragment of a reply, the \<^verbatim>\<open>.catch\<close> only logs, and the calls of \<^verbatim>\<open>onToken\<close> that await
  the promise are resumed by \<open>resumeWaiters\<close> below.
\<close>

definition streamTTSAudio_settled :: "nat \<Rightarrow> stream_task \<Rightarrow> bool \<Rightarrow> world \<Rightarrow> world" where
  "streamTTSAudio_settled k t ok w =
     (let w1 = w\<lparr>streams := (streams w)[k := None]\<rparr> in
      case owner t of
        GreetingStream \<Rightarrow>
          if ok then w1\<lparr>sess := (sess w1)\<lparr>greetingInProgress := False\<rparr>\<rparr>
          else sendFallbackSilence
                 (w1\<lparr>sess := (sess w1)\<lparr>greetingSent := False, greetingInProgress := False\<rparr>\<rparr>)
      | FragmentStream n \<Rightarrow> w1)"

text \<open>The code behind the loop: the mark, sent only if the three conditions hold.\<close>

definition streamTTSAudio_mark :: "nat \<Rightarrow> stream_task \<Rightarrow> world \<Rightarrow> world" where
  "streamTTSAudio_mark k t w =
     streamTTSAudio_settled k t True
       (if sendMark t \<and> wsOpen w \<and> \<not> pendingClear (sess w)
        then sendMarkFrame ''assistant_reply_done'' w else w)"

text \<open>
  Iteration \<open>i\<close> of the \<^verbatim>\<open>for\<close> loop: leave the loop when the socket is not open; leave
  it, resetting \<^verbatim>\<open>pendingClear\<close>, when a barge-in is pending; otherwise send chunk \<open>i\<close> and
  wait 10 ms.
\<close>

definition streamTTSAudio_loop :: "nat \<Rightarrow> stream_task \<Rightarrow> buffer list \<Rightarrow> nat \<Rightarrow> world \<Rightarrow> world" where
  "streamTTSAudio_loop k t chunks i w =
     (if i < length chunks then
        (if \<not> wsOpen w then streamTTSAudio_mark k t w
         else if pendingClear (sess w)
         then streamTTSAudio_mark k t (w\<lparr>sess := (sess w)\<lparr>pendingClear := False\<rparr>\<rparr>)
         else (sendMedia (chunks ! i) w)
                \<lparr>streams := (streams w)[k := Some (t\<lparr>phase := Streaming chunks (i + 1)\<rparr>)]\<rparr>)
      else streamTTSAudio_mark k t w)"

text \<open>
  The synthesized audio has arrived, already at the session's rate (the \<^verbatim>\<open>await\<close> of
  \<^verbatim>\<open>resamplePCM\<close>, between which and the \<^verbatim>\<open>await\<close> of \<^verbatim>\<open>synthesize\<close> the call touches no
  state, is merged into this step): chunk it and run the first iteration.
\<close>

definition streamTTSAudio_audio :: "nat \<Rightarrow> stream_task \<Rightarrow> buffer \<Rightarrow> world \<Rightarrow> world" where
  "streamTTSAudio_audio k t pcmBuffer w =
     (case chunkPCM pcmBuffer (chunkSizeFor (sampleRate (sess w))) of
        None \<Rightarrow> w
      | Some chunks \<Rightarrow> streamTTSAudio_loop k t chunks 0 w)"

text \<open>
  The call itself, up to \<^verbatim>\<open>await ttsService.synthesize(...)\<close>: a text that is empty or white
  space makes it return at once. The new call gets the next number in \<open>streams\<close>.
\<close>

definition streamTTSAudio :: "stream_owner \<Rightarrow> string \<Rightarrow> bool \<Rightarrow> world \<Rightarrow> world" where
  "streamTTSAudio who text mark w =
     (let k = length (streams w);
          t = \<lparr>owner = who, spokenText = text, sendMark = mark, phase = Synthesizing\<rparr>
      in if text = [] \<or> trim text = []
         then streamTTSAudio_settled k t True (w\<lparr>streams := streams w @ [None]\<rparr>)
         else w\<lparr>streams := streams w @ [Some t]\<rparr>)"

subsection \<open>The greeting\<close>

definition cleanGreetingText :: "string \<Rightarrow> string" where
  "cleanGreetingText text =
     (if text = [] then text
      else trim
        (if startsWith text ''GREETING_TEXT=''
         then (let t = drop (length ''GREETING_TEXT='') text in
               if (startsWith t [CHR 0x22] \<and> endsWith t [CHR 0x22])
                  \<or> (startsWith t [CHR 0x27] \<and> endsWith t [CHR 0x27])
               then take (length t - 2) (drop 1 t) else t)
         else text))"

text \<open>\<^verbatim>\<open>obj?.key\<close> on the custom parameters, empty when the key is absent.\<close>

definition param :: "(string \<times> string) list \<Rightarrow> string \<Rightarrow> string" where
  "param ps k = (case map_of ps k of None \<Rightarrow> [] | Some v \<Rightarrow> v)"

definition greetingText :: "deployment \<Rightarrow> session \<Rightarrow> string" where
  "greetingText d s =
     cleanGreetingText
       (if param (customParameters s) ''greeting'' \<noteq> [] then param (customParameters s) ''greeting''
        else if envGreetingText d \<noteq> [] then envGreetingText d
        else ''Hello! Thank you for calling. How can I help you today?'')"

definition triggerGreeting :: "deployment \<Rightarrow> world \<Rightarrow> world" where
  "triggerGreeting d w =
     streamTTSAudio GreetingStream (greetingText d (sess w)) True
       (w\<lparr>sess := (sess w)\<lparr>greetingInProgress := True, greetingSent := True\<rparr>\<rparr>)"

subsection \<open>The turn pipeline: from the audio buffer to the transcription\<close>

text \<open>
  \<^verbatim>\<open>buf.readInt16LE(i)\<close> on the two bytes at \<open>i\<close> and \<open>i + 1\<close>. The loop
  \<^verbatim>\<open>for (let i = 0; i < combinedAudio.length; i += 2)\<close> reads the buffer two bytes at a time;
  with an odd length the last read is out of range and throws, which is the value \<open>None\<close>
  here. The accumulators are \<^verbatim>\<open>nonZeroSamples\<close> and \<^verbatim>\<open>maxAmplitude\<close>.
\<close>

definition readInt16LE :: "byte \<Rightarrow> byte \<Rightarrow> int" where
  "readInt16LE lo hi =
     (let u = uint lo + 256 * uint hi in if u \<ge> 32768 then u - 65536 else u)"

fun silenceScan :: "buffer \<Rightarrow> nat \<times> nat \<Rightarrow> (nat \<times> nat) option" where
  "silenceScan [] counts = Some counts"
| "silenceScan [b] counts = None"
| "silenceScan (lo # hi # rest) (nonZeroSamples, maxAmplitude) =
     (let sample = readInt16LE lo hi;
          absSample = nat \<bar>sample\<bar>
      in silenceScan rest
           (if absSample > 100 then nonZeroSamples + 1 else nonZeroSamples,
            if absSample > maxAmplitude then absSample else maxAmplitude))"

text \<open>
  \<^verbatim>\<open>silenceRatio = 1 - (nonZeroSamples / sampleCount)\<close> and the test \<^verbatim>\<open>silenceRatio > 0.95\<close>,
  in exact rational arithmetic. With \<open>sampleCount = 0\<close> the quotient \<open>0 / 0\<close> is
  \<^verbatim>\<open>NaN\<close>, and every comparison with \<^verbatim>\<open>NaN\<close> is false. (For a buffer below \<open>2^32\<close> bytes a
  ratio other than \<open>1/20\<close> differs from it by more than \<open>10^-11\<close>, far above the rounding
  error of the double-precision computation, and at \<open>1/20\<close> the computed value equals the
  double \<open>0.95\<close>: the test in doubles and the exact test agree.)
\<close>

definition mostlySilence :: "nat \<Rightarrow> nat \<Rightarrow> bool" where
  "mostlySilence nonZeroSamples sampleCount =
     (sampleCount \<noteq> 0 \<and> 1 - (of_nat nonZeroSamples / of_nat sampleCount :: rat) > 95 / 100)"

text \<open>
  \<^verbatim>\<open>processUserAudio(session)\<close> up to \<^verbatim>\<open>await sttService.transcribePCM(...)\<close>. The result says
  whether the call has returned in this segment (every exception inside is caught and
  ends the call) or is suspended at the transcription, as a new turn.
\<close>

definition processUserAudio :: "world \<Rightarrow> world \<times> bool" where
  "processUserAudio w =
     (if length (audioBuffer (sess w)) = 0 then (w, True)
      else if pendingClear (sess w)
      then (w\<lparr>sess := (sess w)\<lparr>audioBuffer := [], pendingClear := False\<rparr>\<rparr>, True)
      else (let combinedAudio = concat (audioBuffer (sess w));
                w1 = w\<lparr>sess := (sess w)\<lparr>audioBuffer := []\<rparr>\<rparr>;
                sampleCount = length combinedAudio div 2
            in case silenceScan combinedAudio (0, 0) of
                 None \<Rightarrow> (w1, True)
               | Some (nonZeroSamples, maxAmplitude) \<Rightarrow>
                   if mostlySilence nonZeroSamples sampleCount then (w1, True)
                   else (w1\<lparr>sttCalls := sttCalls w1 @ [combinedAudio],
                            turns := turns w1
                              @ [\<lparr>turnPhase = AwaitStt, textBuffer = [], pendingTTS = None\<rparr>]\<rparr>,
                         False)))"

text \<open>
  The two callers: \<^verbatim>\<open>session.processingAudio = true; processUserAudio(session).finally(() =>
  { session.processingAudio = false; })\<close>.
\<close>

definition startTurn :: "world \<Rightarrow> world" where
  "startTurn w =
     (let (w1, returned) = processUserAudio (w\<lparr>sess := (sess w)\<lparr>processingAudio := True\<rparr>\<rparr>)
      in if returned then w1\<lparr>sess := (sess w1)\<lparr>processingAudio := False\<rparr>\<rparr> else w1)"

definition turnReturned :: "nat \<Rightarrow> world \<Rightarrow> world" where
  "turnReturned n w =
     w\<lparr>turns := (turns w)[n := (turns w ! n)\<lparr>turnPhase := Returned\<rparr>],
       sess := (sess w)\<lparr>processingAudio := False\<rparr>\<rparr>"

subsection \<open>The inbound events\<close>

definition handleClearEvent :: "world \<Rightarrow> world" where
  "handleClearEvent w = w\<lparr>sess := (sess w)\<lparr>pendingClear := True, audioBuffer := []\<rparr>\<rparr>"

definition storeStreamSid :: "inbound \<Rightarrow> world \<Rightarrow> world" where
  "storeStreamSid m w =
     (if msgStreamSid m \<noteq> [] then w\<lparr>sess := (sess w)\<lparr>streamSid := Some (msgStreamSid m)\<rparr>\<rparr> else w)"

definition storeCustomParameters :: "inbound \<Rightarrow> world \<Rightarrow> world" where
  "storeCustomParameters m w =
     (case msgCustomParameters m of
        None \<Rightarrow> w
      | Some ps \<Rightarrow> w\<lparr>sess := (sess w)\<lparr>customParameters := ps\<rparr>\<rparr>)"

text \<open>
  \<^verbatim>\<open>handleConnectedEvent\<close> and \<^verbatim>\<open>handleStartEvent\<close> differ in their log lines only (and in
  where the custom parameters sit in the message).
\<close>

definition handleConnectedEvent :: "deployment \<Rightarrow> inbound \<Rightarrow> world \<Rightarrow> world" where
  "handleConnectedEvent d m w =
     (let w1 = storeCustomParameters m (storeStreamSid m w);
          w2 = w1\<lparr>sess := (sess w1)\<lparr>isActive := True\<rparr>\<rparr>
      in if streamSid (sess w2) \<noteq> None \<and> \<not> greetingSent (sess w2)
            \<and> \<not> greetingInProgress (sess w2)
         then triggerGreeting d w2 else w2)"

definition handleStartEvent :: "deployment \<Rightarrow> inbound \<Rightarrow> world \<Rightarrow> world" where
  "handleStartEvent d m w =
     (let w1 = storeCustomParameters m (storeStreamSid m w);
          w2 = w1\<lparr>sess := (sess w1)\<lparr>isActive := True\<rparr>\<rparr>
      in if streamSid (sess w2) \<noteq> None \<and> \<not> greetingSent (sess w2)
            \<and> \<not> greetingInProgress (sess w2)
         then triggerGreeting d w2 else w2)"

text \<open>
  The first block of \<^verbatim>\<open>handleMediaEvent\<close>: the \<^verbatim>\<open>stream_sid\<close> is taken from the first media
  event if no earlier event brought it, and the greeting is triggered then.
\<close>

definition captureStreamSid :: "deployment \<Rightarrow> inbound \<Rightarrow> world \<Rightarrow> world" where
  "captureStreamSid d m w =
     (if streamSid (sess w) = None \<and> msgStreamSid m \<noteq> [] then
        (let w' = w\<lparr>sess := (sess w)\<lparr>streamSid := Some (msgStreamSid m)\<rparr>\<rparr>
         in if \<not> greetingSent (sess w') \<and> \<not> greetingInProgress (sess w')
               \<and> isActive (sess w')
            then triggerGreeting d w' else w')
      else w)"

definition handleMediaEvent :: "deployment \<Rightarrow> inbound \<Rightarrow> world \<Rightarrow> world" where
  "handleMediaEvent d m w =
     (case msgPayload m of
        None \<Rightarrow> w
      | Some audioChunk \<Rightarrow>
          (let w1 = captureStreamSid d m w
           in if msgTrack m = ''outbound'' then w1
              else (let w2 = w1\<lparr>sess := (sess w1)
                                 \<lparr>audioBuffer := audioBuffer (sess w1) @ [audioChunk]\<rparr>\<rparr>;
                        threshold = sampleRate (sess w2) * 2 * 2
                    in if length (audioBuffer (sess w2)) > 0 \<and> \<not> processingAudio (sess w2)
                       then (let totalBytes = sum_list (map length (audioBuffer (sess w2)))
                             in if totalBytes \<ge> threshold then startTurn w2 else w2)
                       else w2)))"

definition handleStopEvent :: "world \<Rightarrow> world" where
  "handleStopEvent w =
     (let w1 = w\<lparr>sess := (sess w)\<lparr>isActive := False\<rparr>\<rparr>;
          w2 = (if length (audioBuffer (sess w1)) > 0 \<and> \<not> processingAudio (sess w1)
                then startTurn w1 else w1)
      in if wsOpen w2 then w2\<lparr>wsOpen := False\<rparr> else w2)"

text \<open>The \<^verbatim>\<open>ws.on("message", ...)\<close> callback, on a message that parsed.\<close>

definition onMessage :: "deployment \<Rightarrow> inbound \<Rightarrow> world \<Rightarrow> world" where
  "onMessage d m w =
     (if msgClear m \<or> msgEvent m = ''clear'' then handleClearEvent w
      else if msgEvent m = [] then w
      else if msgEvent m = ''connected'' then handleConnectedEvent d m w
      else if msgEvent m = ''start'' then handleStartEvent d m w
      else if msgEvent m = ''media'' then handleMediaEvent d m w
      else if msgEvent m = ''stop'' then handleStopEvent w
      else w)"

subsection \<open>The turn pipeline: prompt and history\<close>

definition newline :: string where
  "newline = [CHR 0x0A]"

text \<open>\<^verbatim>\<open>generateSystemPrompt(customParams)\<close> of the AI service.\<close>

definition generateSystemPrompt :: "(string \<times> string) list \<Rightarrow> string option" where
  "generateSystemPrompt customParams =
     (if length customParams = 0 then None
      else (let persona_name = param customParams ''persona_name'';
                persona_age = param customParams ''persona_age'';
                tone = param customParams ''tone'';
                gender = param customParams ''gender'';
                city = param customParams ''city'';
                language = param customParams ''language'';
                documents = param customParams ''documents'';
                customer_name = param customParams ''customer_name'';
                intro =
                  (if persona_name \<noteq> [] then
                     ''You are '' @ persona_name
                     @ (if persona_age \<noteq> [] then '', '' @ persona_age @ '' years old'' else [])
                     @ (if tone \<noteq> [] then '', a '' @ tone else [])
                     @ (if gender \<noteq> [] then '' '' @ gender else [])
                     @ (if city \<noteq> [] then '' from '' @ city else [])
                     @ ''.'' @ newline @ newline
                   else []);
                lang =
                  (if language \<noteq> [] then
                     (if str_includes (toLowerCase language) ''hindi''
                         \<or> str_includes (toLowerCase language) ''hi''
                      then ''Baat karo Hinglish mein (mix of Hindi and English).''
                      else ''Speak in '' @ language @ ''.'')
                     @ newline @ newline
                   else []);
                docs =
                  (if documents \<noteq> [] then
                     ''Sirf in documents se jawab do:'' @ newline @ documents @ newline @ newline
                   else []);
                customer =
                  (if customer_name \<noteq> [] then
                     ''Customer ka naam: '' @ customer_name @ newline @ newline
                   else []);
                systemPrompt = intro @ lang @ docs @ customer
            in Some (if trim systemPrompt = [] then ''You are a helpful assistant.''
                     else trim systemPrompt)))"

text \<open>
  \<^verbatim>\<open>ensureSystemMessage\<close>, from the point where \<open>personaContent\<close> is known: the history
  gets the persona as its system entry, in front when there is none.
\<close>

definition isPersonaEntry :: "history_entry \<Rightarrow> bool" where
  "isPersonaEntry e = (role e = System \<and> \<not> str_includes (content e) ''Relevant context'')"

fun updateFirst :: "('a \<Rightarrow> bool) \<Rightarrow> ('a \<Rightarrow> 'a) \<Rightarrow> 'a list \<Rightarrow> 'a list" where
  "updateFirst P f [] = []"
| "updateFirst P f (x # xs) = (if P x then f x # xs else x # updateFirst P f xs)"

definition ensureSystemMessage :: "string \<Rightarrow> session \<Rightarrow> session" where
  "ensureSystemMessage personaContent s =
     (if length (conversationHistory s) = 0
      then s\<lparr>conversationHistory := [\<lparr>role = System, content = personaContent\<rparr>]\<rparr>
      else if \<not> list_ex isPersonaEntry (conversationHistory s)
      then s\<lparr>conversationHistory :=
               \<lparr>role = System, content = personaContent\<rparr> # conversationHistory s\<rparr>
      else s\<lparr>conversationHistory :=
               updateFirst isPersonaEntry (\<lambda>e. e\<lparr>content := personaContent\<rparr>)
                 (conversationHistory s)\<rparr>)"

text \<open>The prompt of \<^verbatim>\<open>generateWithGeminiStreaming\<close>.\<close>

fun joinWith :: "string \<Rightarrow> string list \<Rightarrow> string" where
  "joinWith sep [] = []"
| "joinWith sep [x] = x"
| "joinWith sep (x # y # ys) = x @ sep @ joinWith sep (y # ys)"

definition promptLine :: "history_entry \<Rightarrow> string" where
  "promptLine m =
     (case role m of
        User \<Rightarrow> ''User: '' @ content m @ newline
      | Assistant \<Rightarrow> ''Assistant: '' @ content m @ newline
      | System \<Rightarrow> [])"

definition buildPrompt :: "history_entry list \<Rightarrow> string list \<Rightarrow> string \<Rightarrow> string" where
  "buildPrompt history contextChunks userText =
     (let contextText = (if length contextChunks > 0
                         then joinWith (newline @ newline) contextChunks else []);
          systemPrompt = (case find isPersonaEntry history of
                            None \<Rightarrow> ''You are a helpful assistant.''
                          | Some m \<Rightarrow> content m);
          kept = filter (\<lambda>m. role m \<noteq> System \<or> str_includes (content m) ''Relevant context'')
                   history;
          recentMessages = drop (length kept - 10) kept
      in systemPrompt @ newline @ newline
         @ (if contextText \<noteq> []
            then ''Relevant context:'' @ newline @ contextText @ newline @ newline else [])
         @ concat (map promptLine recentMessages)
         @ ''User: '' @ trim userText @ newline @ ''Assistant:'')"

subsection \<open>The turn pipeline: from tokens to fragments\<close>

text \<open>
  The callback \<^verbatim>\<open>onToken\<close> of \<^verbatim>\<open>processUserAudio\<close>. \<open>flushDecision\<close> is its choice of the
  text to speak and of the rest kept in the buffer (\<open>buf\<close> is \<^verbatim>\<open>textBuffer\<close> with the new
  token appended): \<^verbatim>\<open>sentenceEnders.test(textBuffer)\<close> holds
  when the buffer has one of \<open>. ! ?\<close> (the \<^verbatim>\<open>\s*\<close> of the pattern matches the empty string),
  and then \<^verbatim>\<open>/^([^.!?]*[.!?]\s*)/\<close> matches the buffer up to the first of them and the white
  space behind it (so the fallback branch of the source is never taken).
\<close>

definition isSentenceEnder :: "char \<Rightarrow> bool" where
  "isSentenceEnder c = (c \<in> set ''.!?'')"

definition sentencePrefix :: "string \<Rightarrow> string" where
  "sentencePrefix s =
     (let head = takeWhile (\<lambda>c. \<not> isSentenceEnder c) s;
          rest = drop (length head) s
      in head @ take 1 rest @ takeWhile isSpace (drop 1 rest))"

definition flushDecision :: "string \<Rightarrow> (string \<times> string) option" where
  "flushDecision buf =
     (let words = split_ws (trim buf);
          hasSentenceEnd = list_ex isSentenceEnder buf;
          hasEnoughWords = (length words \<ge> 8)
      in if hasSentenceEnd \<or> (hasEnoughWords \<and> length buf > 50) then
           (let (textToSpeak, remainingBuffer) =
                  (if hasSentenceEnd
                   then (trim (sentencePrefix buf),
                         drop (length (sentencePrefix buf)) buf)
                   else (let wordBoundary = lastIndexOf buf '' '' 100
                         in if wordBoundary > 20
                            then (trim (substring buf 0 (nat wordBoundary)),
                                  trim (drop (nat wordBoundary) buf))
                            else ([], [])))
            in if textToSpeak \<noteq> [] \<and> length textToSpeak > 3
               then Some (textToSpeak, remainingBuffer) else None)
         else None)"

text \<open>
  \<^verbatim>\<open>pendingTTS = streamTTSAudio(session.ws, session, text, final).catch(...)\<close>, and for the
  final fragment the \<^verbatim>\<open>await pendingTTS; pendingTTS = null;\<close> behind it.
\<close>

definition setTurn :: "nat \<Rightarrow> (turn \<Rightarrow> turn) \<Rightarrow> world \<Rightarrow> world" where
  "setTurn n f w = w\<lparr>turns := (turns w)[n := f (turns w ! n)]\<rparr>"

definition startFragment :: "nat \<Rightarrow> string \<Rightarrow> bool \<Rightarrow> world \<Rightarrow> world" where
  "startFragment n text final w =
     (let k = length (streams w);
          w1 = streamTTSAudio (FragmentStream n) text final w;
          w2 = setTurn n (\<lambda>t. t\<lparr>pendingTTS := Some k\<rparr>) w1
      in if final then w2\<lparr>waiters := waiters w2 @ [(k, ResetPending n)]\<rparr> else w2)"

text \<open>
  \<^verbatim>\<open>if (pendingTTS) { await pendingTTS; }\<close> followed by the start of the stream: with a
  promise in \<open>pendingTTS\<close> the call of \<open>onToken\<close> is suspended until that promise
  settles.
\<close>

definition speak :: "nat \<Rightarrow> string \<Rightarrow> bool \<Rightarrow> world \<Rightarrow> world" where
  "speak n text final w =
     (case pendingTTS (turns w ! n) of
        Some p \<Rightarrow> w\<lparr>waiters := waiters w @ [(p, StartFragment n text final)]\<rparr>
      | None \<Rightarrow> startFragment n text final w)"

definition onToken :: "nat \<Rightarrow> string \<Rightarrow> world \<Rightarrow> world" where
  "onToken n token w =
     (if token = [] then w
      else (let buffer = textBuffer (turns w ! n) @ token;
                w1 = setTurn n (\<lambda>t. t\<lparr>textBuffer := buffer\<rparr>) w
            in case flushDecision buffer of
                 None \<Rightarrow> w1
               | Some (textToSpeak, remainingBuffer) \<Rightarrow>
                   speak n textToSpeak False
                     (setTurn n (\<lambda>t. t\<lparr>textBuffer := remainingBuffer\<rparr>) w1)))"

definition onToken_complete :: "nat \<Rightarrow> world \<Rightarrow> world" where
  "onToken_complete n w =
     (if length (trim (textBuffer (turns w ! n))) > 0
      then speak n (trim (textBuffer (turns w ! n))) True
             (setTurn n (\<lambda>t. t\<lparr>textBuffer := []\<rparr>) w)
      else w)"

text \<open>
  The suspended calls of \<open>onToken\<close> whose promise has settled run, in the order in which
  they were suspended, before the event loop takes the next callback.
\<close>

definition settled :: "world \<Rightarrow> nat \<Rightarrow> bool" where
  "settled w p = (p < length (streams w) \<and> streams w ! p = None)"

definition resume :: "continuation \<Rightarrow> world \<Rightarrow> world" where
  "resume c w =
     (case c of
        StartFragment n text final \<Rightarrow> startFragment n text final w
      | ResetPending n \<Rightarrow> setTurn n (\<lambda>t. t\<lparr>pendingTTS := None\<rparr>) w)"

definition resumeOne :: "world \<Rightarrow> nat \<times> continuation \<Rightarrow> world" where
  "resumeOne w pc =
     (if settled w (fst pc) then resume (snd pc) w else w\<lparr>waiters := waiters w @ [pc]\<rparr>)"

definition resumeWaiters :: "world \<Rightarrow> world" where
  "resumeWaiters w = foldl resumeOne (w\<lparr>waiters := []\<rparr>) (waiters w)"

subsection \<open>The turn pipeline: the reply\<close>

text \<open>
  The segments of a turn behind the transcription, in \<^verbatim>\<open>processUserAudio\<close> and in
  \<^verbatim>\<open>generateWithGeminiStreaming\<close>, which it calls through \<^verbatim>\<open>generateAgentReplyStreaming\<close>.

  The transcript has arrived. Without a text the turn ends. Otherwise
  \<^verbatim>\<open>generateWithGeminiStreaming\<close> starts: it returns \<^verbatim>\<open>null\<close> without an API key; with custom
  parameters the system prompt is generated from them and \<^verbatim>\<open>ensureSystemMessage\<close> completes
  at once; without, it awaits \<^verbatim>\<open>loadPersonaFromMongo()\<close>.
\<close>

definition sttReturned :: "deployment \<Rightarrow> nat \<Rightarrow> string option \<Rightarrow> world \<Rightarrow> world" where
  "sttReturned d n transcribedText w =
     (case transcribedText of
        None \<Rightarrow> turnReturned n w
      | Some text \<Rightarrow>
          if length (trim text) = 0 then turnReturned n w
          else if \<not> geminiApiKey d then turnReturned n w
          else (case generateSystemPrompt (customParameters (sess w)) of
                  Some personaContent \<Rightarrow>
                    setTurn n (\<lambda>t. t\<lparr>turnPhase := AwaitChunks (trim text)\<rparr>)
                      (w\<lparr>sess := ensureSystemMessage personaContent (sess w)\<rparr>)
                | None \<Rightarrow> setTurn n (\<lambda>t. t\<lparr>turnPhase := AwaitPersona (trim text)\<rparr>) w))"

definition personaLoaded :: "nat \<Rightarrow> string \<Rightarrow> string \<Rightarrow> world \<Rightarrow> world" where
  "personaLoaded n userText personaContent w =
     setTurn n (\<lambda>t. t\<lparr>turnPhase := AwaitChunks userText\<rparr>)
       (w\<lparr>sess := ensureSystemMessage personaContent (sess w)\<rparr>)"

text \<open>
  \<^verbatim>\<open>getRelevantChunks(userText, 3)\<close> has returned \<open>contextChunks\<close>: the prompt is built from
  the history and posted.
\<close>

definition chunksFound :: "nat \<Rightarrow> string \<Rightarrow> string list \<Rightarrow> world \<Rightarrow> world" where
  "chunksFound n userText contextChunks w =
     setTurn n (\<lambda>t. t\<lparr>turnPhase := AwaitFetch\<rparr>)
       (w\<lparr>llmPrompts := llmPrompts w
             @ [buildPrompt (conversationHistory (sess w)) contextChunks userText]\<rparr>)"

text \<open>
  The \<^verbatim>\<open>catch\<close> of \<^verbatim>\<open>generateWithGeminiStreaming\<close> (a failed request, a response that is not
  ok, a failed read): \<^verbatim>\<open>onToken('', true)\<close>, and \<^verbatim>\<open>null\<close> is returned.
\<close>

definition llmFailed :: "nat \<Rightarrow> world \<Rightarrow> world" where
  "llmFailed n w = turnReturned n (onToken_complete n w)"

definition fetchReturned :: "nat \<Rightarrow> bool \<Rightarrow> world \<Rightarrow> world" where
  "fetchReturned n ok w =
     (if ok then setTurn n (\<lambda>t. t\<lparr>turnPhase := Reading []\<rparr>) w else llmFailed n w)"

text \<open>
  One \<^verbatim>\<open>reader.read()\<close> has returned bytes. Their decoding, the splitting into lines and the
  JSON parsing are not modelled: \<open>deltas\<close> are the non-empty texts \<^verbatim>\<open>part.text\<close> they
  yield, in order. For each, \<^verbatim>\<open>fullReply += deltaText; onToken(deltaText, false);\<close> and
  the call of \<open>onToken\<close> is not awaited.
\<close>

definition deliverDelta :: "nat \<Rightarrow> world \<times> string \<Rightarrow> string \<Rightarrow> world \<times> string" where
  "deliverDelta n wr deltaText =
     (if deltaText = [] then wr else (onToken n deltaText (fst wr), snd wr @ deltaText))"

definition llmRead :: "nat \<Rightarrow> string \<Rightarrow> string list \<Rightarrow> world \<Rightarrow> world" where
  "llmRead n fullReply deltas w =
     (let (w1, fullReply1) = foldl (deliverDelta n) (w, fullReply) deltas
      in setTurn n (\<lambda>t. t\<lparr>turnPhase := Reading fullReply1\<rparr>) w1)"

text \<open>
  The stream has ended, \<open>lastDeltas\<close> being what the rest of the line buffer yields (at
  most one text). Then \<^verbatim>\<open>onToken('', true)\<close> if there is a reply, and the processed reply is
  appended to the history.
\<close>

definition llmEnded :: "deployment \<Rightarrow> nat \<Rightarrow> string \<Rightarrow> string list \<Rightarrow> world \<Rightarrow> world" where
  "llmEnded d n fullReply lastDeltas w =
     (let (w1, fullReply1) = foldl (deliverDelta n) (w, fullReply) (take 1 lastDeltas);
          w2 = (if fullReply1 \<noteq> [] then onToken_complete n w1 else w1);
          replyText = trim fullReply1;
          w3 = (if replyText \<noteq> []
                then w2\<lparr>sess := (sess w2)\<lparr>conversationHistory :=
                          conversationHistory (sess w2)
                            @ [\<lparr>role = Assistant, content = postProcessReply d replyText\<rparr>]\<rparr>\<rparr>
                else w2)
      in turnReturned n w3)"

subsection \<open>Actions and runs\<close>

datatype action =
    Message inbound
  | WsClosed
  | AudioReady nat buffer
  | AudioFailed nat
  | Tick nat
  | SilenceTick nat
  | SttReturned nat "string option"
  | PersonaLoaded nat string
  | ChunksFound nat "string list"
  | FetchReturned nat bool
  | LlmRead nat "string list"
  | LlmEnded nat "string list"
  | LlmFailed nat

definition streamAt :: "world \<Rightarrow> nat \<Rightarrow> stream_task option" where
  "streamAt w k = (if k < length (streams w) then streams w ! k else None)"

definition silenceAt :: "world \<Rightarrow> nat \<Rightarrow> (buffer list \<times> nat) option" where
  "silenceAt w k = (if k < length (silences w) then silences w ! k else None)"

definition turnPhaseAt :: "world \<Rightarrow> nat \<Rightarrow> turn_phase option" where
  "turnPhaseAt w n = (if n < length (turns w) then Some (turnPhase (turns w ! n)) else None)"

text \<open>
  The segment of an action, \<open>None\<close> when the action is not enabled (no call is suspended
  at that point).
\<close>

fun exec :: "deployment \<Rightarrow> action \<Rightarrow> world \<Rightarrow> world option" where
  "exec d (Message m) w = Some (onMessage d m w)"
| "exec d WsClosed w = Some (w\<lparr>wsOpen := False\<rparr>)"
| "exec d (AudioReady k pcmBuffer) w =
     (case streamAt w k of
        Some t \<Rightarrow> (case phase t of
                     Synthesizing \<Rightarrow> Some (streamTTSAudio_audio k t pcmBuffer w)
                   | Streaming chunks i \<Rightarrow> None)
      | None \<Rightarrow> None)"
| "exec d (AudioFailed k) w =
     (case streamAt w k of
        Some t \<Rightarrow> (case phase t of
                     Synthesizing \<Rightarrow> Some (streamTTSAudio_settled k t False w)
                   | Streaming chunks i \<Rightarrow> None)
      | None \<Rightarrow> None)"
| "exec d (Tick k) w =
     (case streamAt w k of
        Some t \<Rightarrow> (case phase t of
                     Synthesizing \<Rightarrow> None
                   | Streaming chunks i \<Rightarrow> Some (streamTTSAudio_loop k t chunks i w))
      | None \<Rightarrow> None)"
| "exec d (SilenceTick k) w =
     (case silenceAt w k of
        Some (chunks, i) \<Rightarrow> Some (sendFallbackSilence_loop k chunks i w)
      | None \<Rightarrow> None)"
| "exec d (SttReturned n transcribedText) w =
     (case turnPhaseAt w n of
        Some AwaitStt \<Rightarrow> Some (sttReturned d n transcribedText w)
      | _ \<Rightarrow> None)"
| "exec d (PersonaLoaded n personaContent) w =
     (case turnPhaseAt w n of
        Some (AwaitPersona userText) \<Rightarrow> Some (personaLoaded n userText personaContent w)
      | _ \<Rightarrow> None)"
| "exec d (ChunksFound n contextChunks) w =
     (case turnPhaseAt w n of
        Some (AwaitChunks userText) \<Rightarrow> Some (chunksFound n userText contextChunks w)
      | _ \<Rightarrow> None)"
| "exec d (FetchReturned n ok) w =
     (case turnPhaseAt w n of
        Some AwaitFetch \<Rightarrow> Some (fetchReturned n ok w)
      | _ \<Rightarrow> None)"
| "exec d (LlmRead n deltas) w =
     (case turnPhaseAt w n of
        Some (Reading fullReply) \<Rightarrow> Some (llmRead n fullReply deltas w)
      | _ \<Rightarrow> None)"
| "exec d (LlmEnded n lastDeltas) w =
     (case turnPhaseAt w n of
        Some (Reading fullReply) \<Rightarrow> Some (llmEnded d n fullReply lastDeltas w)
      | _ \<Rightarrow> None)"
| "exec d (LlmFailed n) w =
     (case turnPhaseAt w n of
        Some (Reading fullReply) \<Rightarrow> Some (llmFailed n w)
      | _ \<Rightarrow> None)"

text \<open>
  One step of the event loop: the segment of the action, followed by the suspended calls of
  \<open>onToken\<close> that it has made ready. An action that is not enabled cannot occur and
  leaves the world as it is, so that every list of actions is a run; \<open>feasible\<close> says
  that each action of a list is enabled when its turn comes.
\<close>

definition step :: "deployment \<Rightarrow> action \<Rightarrow> world \<Rightarrow> world" where
  "step d a w = (case exec d a w of None \<Rightarrow> w | Some w' \<Rightarrow> resumeWaiters w')"

fun run :: "deployment \<Rightarrow> action list \<Rightarrow> world \<Rightarrow> world" where
  "run d [] w = w"
| "run d (a # as) w = run d as (step d a w)"

fun feasible :: "deployment \<Rightarrow> action list \<Rightarrow> world \<Rightarrow> bool" where
  "feasible d [] w = True"
| "feasible d (a # as) w = (exec d a w \<noteq> None \<and> feasible d as (step d a w))"

subsection \<open>A deployment, messages and runs for the examples\<close>

text \<open>
  The deployment of the examples has an API key for the LLM and the greeting "Hi."; its
  post-processing of replies is left open. The messages are a \<^verbatim>\<open>connected\<close> and a \<^verbatim>\<open>start\<close>
  event that bring the \<^verbatim>\<open>stream_sid\<close>, and a \<^verbatim>\<open>media\<close> event with a track and a payload.
\<close>

definition demoDeployment :: "(string \<Rightarrow> string) \<Rightarrow> deployment" where
  "demoDeployment pp = \<lparr>geminiApiKey = True, envGreetingText = ''Hi.'', postProcessReply = pp\<rparr>"

definition noPostProcessing :: "string \<Rightarrow> string" where
  "noPostProcessing reply = reply"

definition connectedMessage :: inbound where
  "connectedMessage = (eventMessage ''connected'')\<lparr>msgStreamSid := ''S1''\<rparr>"

definition startMessage :: inbound where
  "startMessage = (eventMessage ''start'')\<lparr>msgStreamSid := ''S1''\<rparr>"

definition mediaMessage :: "string \<Rightarrow> buffer \<Rightarrow> inbound" where
  "mediaMessage track audioChunk =
     (eventMessage ''media'')\<lparr>msgPayload := Some audioChunk, msgTrack := track\<rparr>"

text \<open>
  Two seconds of loud audio at 8 kHz (every sample is \<open>0x7F7F\<close>), which passes the silence
  gate, and the texts of the examples.
\<close>

definition loudAudio :: buffer where
  "loudAudio = replicate 32000 127"

definition personaText :: string where
  "personaText = ''You are Parvati.''"

definition helloTranscript :: string where
  "helloTranscript = ''hello there''"

definition shortReply :: string where
  "shortReply = ''Hello there''"

definition sentence1 :: string where
  "sentence1 = ''First one. ''"

definition sentence2 :: string where
  "sentence2 = ''Second one. ''"

definition sentence3 :: string where
  "sentence3 = ''Third one. ''"

definition question1 :: string where
  "question1 = ''What is the price?''"

definition answer1 :: string where
  "answer1 = ''It costs 999 rupees.''"

definition question2 :: string where
  "question2 = ''And for two?''"

text \<open>
  A call in which the caller barges in on the reply. The greeting is synthesized (100
  bytes, one chunk) and streamed. Two seconds of audio arrive and are transcribed; the
  reply "Hello there" comes in one delta without a sentence end, so it is spoken as the
  final fragment of the turn, stream 1, whose audio (7000 bytes) makes three chunks. After
  the first chunk the \<^verbatim>\<open>clear\<close> event arrives, and then the timer of stream 1 fires.
\<close>

definition beforeBargeInTrace :: "action list" where
  "beforeBargeInTrace =
     [Message connectedMessage, AudioReady 0 (replicate 100 9), Tick 0,
      Message (mediaMessage ''inbound'' loudAudio),
      SttReturned 0 (Some helloTranscript), PersonaLoaded 0 personaText,
      ChunksFound 0 [], FetchReturned 0 True,
      LlmRead 0 [shortReply], LlmEnded 0 [],
      AudioReady 1 (replicate 7000 1)]"

definition bargeInTrace :: "action list" where
  "bargeInTrace = beforeBargeInTrace @ [Message (eventMessage ''clear''), Tick 1]"

text \<open>
  A call in which the reply arrives as three sentences in one read. The first is spoken at
  once (stream 1); the calls of \<^verbatim>\<open>onToken\<close> for the second and the third both wait for the
  promise of stream 1. Stream 1 sends its two chunks and returns; the two waiting calls
  start streams 2 and 3, whose audio arrives, and whose timers fire, one after the other.
\<close>

definition threeSentencesTrace :: "action list" where
  "threeSentencesTrace =
     [Message connectedMessage, AudioReady 0 (replicate 100 9), Tick 0,
      Message (mediaMessage ''inbound'' loudAudio),
      SttReturned 0 (Some helloTranscript), PersonaLoaded 0 personaText,
      ChunksFound 0 [], FetchReturned 0 True,
      LlmRead 0 [sentence1, sentence2, sentence3],
      AudioReady 1 (replicate 3300 1), Tick 1, Tick 1,
      AudioReady 2 (replicate 3300 2),
      AudioReady 3 (replicate 3300 3),
      Tick 2, Tick 3]"

text \<open>
  A call with two turns: the caller asks a question, the reply is produced and stored, and
  the caller asks a second question, for which the prompt is built.
\<close>

definition firstTurnTrace :: "action list" where
  "firstTurnTrace =
     [Message connectedMessage,
      Message (mediaMessage ''inbound'' loudAudio),
      SttReturned 0 (Some question1), PersonaLoaded 0 personaText,
      ChunksFound 0 [], FetchReturned 0 True,
      LlmRead 0 [answer1], LlmEnded 0 []]"

definition secondTurnTrace :: "action list" where
  "secondTurnTrace =
     [Message (mediaMessage ''inbound'' loudAudio),
      SttReturned 1 (Some question2), PersonaLoaded 1 personaText,
      ChunksFound 1 []]"

text \<open>
  A call in which the synthesis of the greeting fails, so that one second of silence is
  sent (five chunks at 8 kHz); the \<^verbatim>\<open>start\<close> event then triggers the greeting again, and
  this time it is streamed (3300 bytes, two chunks).
\<close>

definition fallbackTrace :: "action list" where
  "fallbackTrace =
     [Message connectedMessage, AudioFailed 0,
      SilenceTick 0, SilenceTick 0, SilenceTick 0, SilenceTick 0, SilenceTick 0,
      Message startMessage, AudioReady 1 (replicate 3300 5), Tick 1, Tick 1]"



subsection \<open>The sequence-number invariant\<close>

text \<open>
  The sequence numbers of the media frames sent so far are \<open>0, 1, \<dots>\<close> up to, and without,
  the session's counter.
\<close>

definition seqInv :: "world \<Rightarrow> bool" where
  "seqInv w = (mediaSeqs (wire w) = [0..<sequenceNumber (sess w)])"

subsection \<open>The roles in the history\<close>

text \<open>No entry of the conversation history has the role \<open>User\<close>.\<close>

definition noUserEntry :: "world \<Rightarrow> bool" where
  "noUserEntry w = list_all (\<lambda>e. role e \<noteq> User) (conversationHistory (sess w))"

section \<open>Properties of the PCM framing\<close>

text \<open>
  The loop started at position \<open>i\<close> returns, and appends to \<open>chunks\<close> frames whose
  concatenation is the rest of the buffer from \<open>i\<close> on; every frame but the last has
  exactly \<open>chunkSize\<close> bytes. The induction is on the number of bytes still to frame.
\<close>

lemma chunkPCM_loop_frames:
  assumes "0 < s"
  shows "\<exists>rest. chunkPCM_loop pcm s i chunks = Some (chunks @ rest)
           \<and> concat rest = drop i pcm
           \<and> (\<forall>c \<in> set rest. length c \<le> s)
           \<and> (\<forall>c \<in> set (butlast rest). length c = s)
           \<and> (rest = [] \<longleftrightarrow> length pcm \<le> i)"
proof (induction "length pcm - i" arbitrary: i chunks rule: less_induct)
  case less
  show ?case
  proof (cases "i < length pcm")
    case False
    then have "chunkPCM_loop pcm s i chunks = Some (chunks @ [])"
      by (subst chunkPCM_loop.simps) simp
    with False show ?thesis by auto
  next
    case True
    define c where "c = slice pcm i (min (i + s) (length pcm))"
    have step: "chunkPCM_loop pcm s i chunks = chunkPCM_loop pcm s (i + s) (chunks @ [c])"
      using True by (subst chunkPCM_loop.simps) (simp add: c_def)
    have "length pcm - (i + s) < length pcm - i"
      using True assms by arith
    from less [OF this, of "chunks @ [c]"]
    obtain rest where r:
      "chunkPCM_loop pcm s (i + s) (chunks @ [c]) = Some ((chunks @ [c]) @ rest)"
      "concat rest = drop (i + s) pcm"
      "\<forall>c \<in> set rest. length c \<le> s"
      "\<forall>c \<in> set (butlast rest). length c = s"
      "rest = [] \<longleftrightarrow> length pcm \<le> i + s"
      by blast
    have c_eq: "c = take s (drop i pcm)"
      using True by (auto simp: c_def slice_def min_def)
    have len_c: "length c \<le> s"
      by (simp add: c_eq)
    have cat: "c @ drop (i + s) pcm = drop i pcm"
      by (simp add: c_eq add.commute [of i s] flip: drop_drop)
    have full: "length c = s" if "rest \<noteq> []"
      using that r(5) by (simp add: c_eq)
    have "chunkPCM_loop pcm s i chunks = Some (chunks @ (c # rest))"
      using step r(1) by simp
    moreover have "concat (c # rest) = drop i pcm"
      using r(2) cat by simp
    moreover have "\<forall>x \<in> set (c # rest). length x \<le> s"
      using r(3) len_c by simp
    moreover have "\<forall>x \<in> set (butlast (c # rest)). length x = s"
      using r(4) full by simp
    moreover have "(c # rest = []) \<longleftrightarrow> length pcm \<le> i"
      using True by simp
    ultimately show ?thesis by blast
  qed
qed

text \<open>
  C9. For every PCM buffer and every chunk size \<open>s\<close> that is a positive multiple of 320,
  \<open>chunkPCM\<close> returns; the frames it returns, concatenated in order, are the input
  buffer; every frame has at most \<open>s\<close> bytes; and every frame except possibly the last
  has a size that is a multiple of 320.
\<close>

theorem chunkPCM_lossless_framing:
  assumes "0 < s" and "320 dvd s"
  shows "\<exists>frames. chunkPCM pcm s = Some frames
           \<and> concat frames = pcm
           \<and> (\<forall>f \<in> set frames. length f \<le> s)
           \<and> (\<forall>f \<in> set (butlast frames). 320 dvd length f)"
proof -
  from chunkPCM_loop_frames [OF assms(1), of pcm 0 "[]"]
  obtain rest where r:
    "chunkPCM_loop pcm s 0 [] = Some ([] @ rest)"
    "concat rest = drop 0 pcm"
    "\<forall>c \<in> set rest. length c \<le> s"
    "\<forall>c \<in> set (butlast rest). length c = s"
    by blast
  have "\<forall>f \<in> set (butlast rest). 320 dvd length f"
    using r(4) assms(2) by simp
  with r(1-3) show ?thesis
    by (auto simp: chunkPCM_def)
qed

theorem chunkPCM_lossless_framing_witness:
  "(0::nat) < 320 \<and> (320::nat) dvd 320
   \<and> (\<exists>frames. chunkPCM (replicate 700 (0::byte)) 320 = Some frames
        \<and> concat frames = replicate 700 0
        \<and> (\<forall>f \<in> set frames. length f \<le> 320)
        \<and> (\<forall>f \<in> set (butlast frames). 320 dvd length f))"
proof -
  have a: "(0::nat) < 320" and b: "(320::nat) dvd 320"
    by simp_all
  from chunkPCM_lossless_framing [OF a b, of "replicate 700 0"] a b
  show ?thesis by blast
qed

section \<open>Properties of the outbound-call endpoint\<close>
lemma missingKeys_empty_iff:
  "missingKeys e = [] \<longleftrightarrow>
     \<not> (envMissing e ''EXOTEL_API_KEY'' \<or> envMissing e ''EXOTEL_API_TOKEN''
         \<or> envMissing e ''EXOTEL_SID'' \<or> envMissing e ''EXOTEL_APP_ID''
         \<or> envMissing e ''EXOTEL_CALLER_ID'')"
  by (simp add: missingKeys_def requiredKeys_def filter_empty_conv)

text \<open>
  C8, as amended. When any of the five required configuration keys is unset or empty, the
  endpoint answers HTTP 400 with an error payload that lists all five required keys,
  whichever of them are missing. A request whose target number is given and does not start
  with \<open>+\<close> is answered with an error response (status 400 or 500, \<open>success = false\<close>); with
  the configuration complete and a string target, it is the 400 "invalid phone number"
  response.
\<close>

theorem post_call_error_responses:
  "(missingKeys e \<noteq> [] \<longrightarrow>
      post_call e makeCall to from
        = \<lparr>status = 400, success = False, body = MissingConfiguration requiredKeys\<rparr>)
   \<and> (truthy to \<and> (\<forall>s. to = JString s \<longrightarrow> \<not> startsWith s ''+'') \<longrightarrow>
        \<not> success (post_call e makeCall to from)
        \<and> status (post_call e makeCall to from) \<in> {400, 500})
   \<and> (missingKeys e = [] \<and> truthy to \<and> (\<exists>s. to = JString s \<and> \<not> startsWith s ''+'') \<longrightarrow>
        post_call e makeCall to from
          = \<lparr>status = 400, success = False, body = InvalidPhoneNumber\<rparr>)"
proof (intro conjI impI)
  assume "missingKeys e \<noteq> []"
  then show "post_call e makeCall to from
        = \<lparr>status = 400, success = False, body = MissingConfiguration requiredKeys\<rparr>"
    unfolding missingKeys_empty_iff by (simp add: post_call_def Let_def)
next
  assume a: "truthy to \<and> (\<forall>s. to = JString s \<longrightarrow> \<not> startsWith s ''+'')"
  show "\<not> success (post_call e makeCall to from)"
    using a by (cases to) (auto simp: post_call_def Let_def)
  show "status (post_call e makeCall to from) \<in> {400, 500}"
    using a by (cases to) (auto simp: post_call_def Let_def)
next
  assume "missingKeys e = [] \<and> truthy to \<and> (\<exists>s. to = JString s \<and> \<not> startsWith s ''+'')"
  then show "post_call e makeCall to from
          = \<lparr>status = 400, success = False, body = InvalidPhoneNumber\<rparr>"
    unfolding missingKeys_empty_iff by (auto simp: post_call_def Let_def)
qed

lemma missingKeys_envWithout_sid: "missingKeys (envWithout ''EXOTEL_SID'') = [''EXOTEL_SID'']"
  by (simp add: missingKeys_def requiredKeys_def envWithout_def envMissing_def)

lemma missingKeys_envWithout_none: "missingKeys (envWithout ''NONE'') = []"
  by (simp add: missingKeys_def requiredKeys_def envWithout_def envMissing_def)

text \<open>
  The theorem at two requests: one with \<open>EXOTEL_SID\<close> unset, one with the configuration
  complete and a target number without the leading \<open>+\<close>.
\<close>

theorem post_call_error_responses_witness:
  "missingKeys (envWithout ''EXOTEL_SID'') \<noteq> []
   \<and> post_call (envWithout ''EXOTEL_SID'') callNotReached (JString ''+919324606985'') JUndefined
        = \<lparr>status = 400, success = False, body = MissingConfiguration requiredKeys\<rparr>
   \<and> missingKeys (envWithout ''NONE'') = []
   \<and> truthy (JString ''919324606985'')
   \<and> \<not> startsWith ''919324606985'' ''+''
   \<and> post_call (envWithout ''NONE'') callNotReached (JString ''919324606985'') JUndefined
        = \<lparr>status = 400, success = False, body = InvalidPhoneNumber\<rparr>
   \<and> \<not> success (post_call (envWithout ''NONE'') callNotReached (JString ''919324606985'') JUndefined)"
proof -
  have a: "missingKeys (envWithout ''EXOTEL_SID'') \<noteq> []"
    by (simp add: missingKeys_envWithout_sid)
  have b: "missingKeys (envWithout ''NONE'') = []"
    by (rule missingKeys_envWithout_none)
  have c: "\<not> startsWith ''919324606985'' ''+''"
    by (simp add: startsWith_def)
  note t1 = post_call_error_responses
    [of "envWithout ''EXOTEL_SID''" callNotReached "JString ''+919324606985''" JUndefined]
  note t2 = post_call_error_responses
    [of "envWithout ''NONE''" callNotReached "JString ''919324606985''" JUndefined]
  from t1 a have r1: "post_call (envWithout ''EXOTEL_SID'') callNotReached (JString ''+919324606985'') JUndefined
        = \<lparr>status = 400, success = False, body = MissingConfiguration requiredKeys\<rparr>"
    by blast
  from t2 b c have r2: "post_call (envWithout ''NONE'') callNotReached (JString ''919324606985'') JUndefined
        = \<lparr>status = 400, success = False, body = InvalidPhoneNumber\<rparr>"
    by simp
  from t2 c have r3: "\<not> success (post_call (envWithout ''NONE'') callNotReached (JString ''919324606985'') JUndefined)"
    by simp
  from a b c r1 r2 r3 show ?thesis by simp
qed

text \<open>
  C8 as stated fails: with only \<open>EXOTEL_SID\<close> unset, the payload of the 400 response lists
  the five required keys, which is not the list of the missing keys.
\<close>

theorem post_call_lists_all_required_keys:
  "post_call (envWithout ''EXOTEL_SID'') callNotReached (JString ''+919324606985'') JUndefined
     = \<lparr>status = 400, success = False, body = MissingConfiguration requiredKeys\<rparr>
   \<and> missingKeys (envWithout ''EXOTEL_SID'') = [''EXOTEL_SID'']
   \<and> requiredKeys \<noteq> missingKeys (envWithout ''EXOTEL_SID'')"
  by (simp add: post_call_def Let_def missingKeys_envWithout_sid)
     (simp add: requiredKeys_def envWithout_def envMissing_def)

section \<open>Properties of the text chunker\<close>

lemma dropWhile_all_iff: "(\<forall>x \<in> set (dropWhile P xs). P x) \<longleftrightarrow> (\<forall>x \<in> set xs. P x)"
proof
  assume a: "\<forall>x \<in> set (dropWhile P xs). P x"
  have "dropWhile P xs = []"
  proof (rule ccontr)
    assume n: "dropWhile P xs \<noteq> []"
    then have "\<not> P (hd (dropWhile P xs))" by (rule hd_dropWhile)
    moreover have "hd (dropWhile P xs) \<in> set (dropWhile P xs)" using n by simp
    ultimately show False using a by blast
  qed
  then show "\<forall>x \<in> set xs. P x" by (simp add: dropWhile_eq_Nil_conv)
next
  assume "\<forall>x \<in> set xs. P x"
  then show "\<forall>x \<in> set (dropWhile P xs). P x"
    by (meson set_dropWhileD)
qed

lemma trim_empty_iff: "trim s = [] \<longleftrightarrow> (\<forall>c \<in> set s. isSpace c)"
  by (simp add: trim_def dropWhile_eq_Nil_conv dropWhile_all_iff)

lemma lastIndexScan_le:
  "lastIndexScan s p k from best \<le> max best (int from)"
proof (induction s arbitrary: k best)
  case Nil
  then show ?case by simp
next
  case (Cons c cs)
  show ?case
  proof (cases "from < k")
    case True
    then show ?thesis by simp
  next
    case False
    define best' where "best' = (if startsWith (c # cs) p then int k else best)"
    have "lastIndexScan (c # cs) p k from best = lastIndexScan cs p (Suc k) from best'"
      using False by (simp add: best'_def)
    also have "\<dots> \<le> max best' (int from)" by (rule Cons.IH)
    also have "\<dots> \<le> max best (int from)" using False by (auto simp: best'_def max_def)
    finally show ?thesis .
  qed
qed

lemma lastIndexOf_le: "lastIndexOf s p from \<le> int from"
  using lastIndexScan_le [of s p 0 "from" "- 1"] by (simp add: lastIndexOf_def)

lemma windowEnd_bounds:
  assumes "start < length text" and "1 \<le> chunkSize"
  shows "start < windowEnd text chunkSize start \<and> windowEnd text chunkSize start \<le> length text"
proof -
  define end0 where "end0 = min (start + chunkSize) (length text)"
  define bb where "bb = max (lastIndexOf text ''.'' end0) (lastIndexOf text [CHR 0x0A, CHR 0x0A] end0)"
  have e0: "start < end0" "end0 \<le> length text"
    using assms by (auto simp: end0_def)
  have bb_le: "bb \<le> int end0"
    by (simp add: bb_def lastIndexOf_le)
  have we: "windowEnd text chunkSize start =
      (if end0 < length text \<and> 2 * bb > 2 * int start + int chunkSize then nat (bb + 1) else end0)"
    by (simp add: windowEnd_def Let_def end0_def bb_def)
  show ?thesis
  proof (cases "end0 < length text \<and> 2 * bb > 2 * int start + int chunkSize")
    case True
    then have "windowEnd text chunkSize start = nat (bb + 1)" by (simp add: we)
    moreover have "start < nat (bb + 1)" using True by linarith
    moreover have "nat (bb + 1) \<le> length text" using True bb_le by linarith
    ultimately show ?thesis by simp
  next
    case False
    then have "windowEnd text chunkSize start = end0" by (auto simp: we)
    with e0 show ?thesis by simp
  qed
qed

lemma window_covers_nonspace:
  assumes "start \<le> p" "p < e" "e \<le> length text" "\<not> isSpace (text ! p)"
  shows "trim (substring text start e) \<noteq> []"
proof -
  have "text ! p \<in> set (substring text start e)"
  proof -
    have "p - start < length (substring text start e)"
      using assms by (simp add: substring_def)
    moreover have "substring text start e ! (p - start) = text ! p"
      using assms by (simp add: substring_def)
    ultimately show ?thesis by (metis nth_mem)
  qed
  with assms(4) show ?thesis by (auto simp: trim_empty_iff)
qed

lemma chunkText_loop_returns:
  assumes size: "1 \<le> chunkSize"
  shows "\<exists>ws. chunkText_loop text chunkSize overlap m start chunks = Some ws"
proof (induction "length text - start" arbitrary: start chunks rule: less_induct)
  case less
  show ?case
  proof (cases "start < length text \<and> length chunks < m")
    case False
    then have "chunkText_loop text chunkSize overlap m start chunks = Some chunks"
      by (subst chunkText_loop.simps) auto
    then show ?thesis by simp
  next
    case True
    define e where "e = windowEnd text chunkSize start"
    define chunk where "chunk = trim (substring text start e)"
    define chunks' where
      "chunks' = (if length chunk > 0 then chunks @ [(start, e, chunk)] else chunks)"
    have eb: "start < e" "e \<le> length text"
      using windowEnd_bounds [of start "text" chunkSize] True size by (auto simp: e_def)
    show ?thesis
    proof (cases "e \<ge> length text")
      case True
      have "chunkText_loop text chunkSize overlap m start chunks = Some chunks'"
        using \<open>start < length text \<and> length chunks < m\<close> True
        by (subst chunkText_loop.simps) (simp add: Let_def e_def chunk_def chunks'_def)
      then show ?thesis by simp
    next
      case False
      define start' where "start' = max (start + 1) (e - overlap)"
      have r: "chunkText_loop text chunkSize overlap m start chunks
                 = chunkText_loop text chunkSize overlap m start' chunks'"
        using \<open>start < length text \<and> length chunks < m\<close> False
        by (subst chunkText_loop.simps) (simp add: Let_def e_def chunk_def chunks'_def start'_def)
      have "start < start'"
        by (simp add: start'_def)
      then have "length text - start' < length text - start"
        using True by arith
      from less [OF this, of chunks'] show ?thesis
        by (simp add: r)
    qed
  qed
qed

text \<open>
  The loop returns for every text and every chunk size \<open>\<ge> 1\<close>: each iteration moves
  \<open>start\<close> forward by at least one character.
\<close>

lemma chunkText_returns:
  assumes "1 \<le> chunkSize"
  shows "\<exists>ws. chunkText_windows text chunkSize overlap = Some ws
           \<and> chunkText text chunkSize overlap = Some (map (\<lambda>(start, end, chunk). chunk) ws)"
proof (cases "text = [] \<or> length (trim text) = 0")
  case True
  then show ?thesis
    by (auto simp: chunkText_windows_def chunkText_def)
next
  case False
  from chunkText_loop_returns [OF assms, of "text" overlap
      "maxChunksFor (length text) chunkSize overlap" 0 "[]"]
  obtain ws where "chunkText_loop text chunkSize overlap
      (maxChunksFor (length text) chunkSize overlap) 0 [] = Some ws"
    by auto
  with False show ?thesis
    by (auto simp: chunkText_windows_def chunkText_def)
qed

lemma lastIndexScan_no_match:
  assumes "p \<noteq> []" and "hd p \<notin> set s"
  shows "lastIndexScan s p k from best = best"
  using assms(2)
proof (induction s arbitrary: k)
  case Nil
  then show ?case by simp
next
  case (Cons c cs)
  have "\<not> startsWith (c # cs) p"
    using assms(1) Cons.prems by (cases p) (auto simp: startsWith_def)
  with Cons show ?case by simp
qed

lemma lastIndexScan_skip:
  assumes "p \<noteq> []" and "hd p \<noteq> a" and "k + n \<le> Suc from"
  shows "lastIndexScan (replicate n a @ rest) p k from best = lastIndexScan rest p (k + n) from best"
  using assms(3)
proof (induction n arbitrary: k)
  case 0
  then show ?case by simp
next
  case (Suc n)
  have "\<not> startsWith (a # replicate n a @ rest) p"
    using assms(1,2) by (cases p) (auto simp: startsWith_def)
  with Suc show ?case by simp
qed

lemma length_oneSentenceText: "length oneSentenceText = 600"
  by (simp add: oneSentenceText_def)

lemma oneSentenceText_letter: "i < 400 \<Longrightarrow> oneSentenceText ! i = CHR ''a''"
  by (simp add: oneSentenceText_def nth_append)

lemma oneSentenceText_last: "oneSentenceText ! 599 = CHR ''a''"
  by (simp add: oneSentenceText_def nth_append)

lemma lastIndexOf_stop:
  assumes "400 \<le> from"
  shows "lastIndexOf oneSentenceText ''.'' from = 400"
proof -
  have "lastIndexOf oneSentenceText ''.'' from
          = lastIndexScan (''.'' @ replicate 199 (CHR ''a'')) ''.'' 400 from (- 1)"
    unfolding lastIndexOf_def oneSentenceText_def
    using lastIndexScan_skip [of "''.''" "CHR ''a''" 0 400 "from"] assms by simp
  also have "\<dots> = lastIndexScan (replicate 199 (CHR ''a'')) ''.'' 401 from 400"
    using assms by (simp add: startsWith_def)
  also have "\<dots> = 400"
    by (rule lastIndexScan_no_match) simp_all
  finally show ?thesis .
qed

lemma lastIndexOf_paragraph: "lastIndexOf oneSentenceText [CHR 0x0A, CHR 0x0A] from = - 1"
  unfolding lastIndexOf_def
  by (rule lastIndexScan_no_match) (auto simp: oneSentenceText_def)

lemma windowEnd_oneSentenceText:
  assumes "start < 200"
  shows "windowEnd oneSentenceText 400 start = 401"
  using assms
  by (simp add: windowEnd_def Let_def length_oneSentenceText lastIndexOf_stop
      lastIndexOf_paragraph)

lemma chunk_oneSentenceText:
  assumes "start < 200"
  shows "trim (substring oneSentenceText start 401) \<noteq> []"
proof (rule window_covers_nonspace [of start start])
  show "\<not> isSpace (oneSentenceText ! start)"
    using assms by (simp add: oneSentenceText_letter isSpace_def)
qed (use assms in \<open>simp_all add: length_oneSentenceText\<close>)

lemma chunkText_loop_oneSentenceText:
  assumes "11 \<le> start" "start \<le> 170" "length chunks = start - 10"
    and "\<forall>w \<in> set chunks. fst (snd w) = 401"
  shows "\<exists>ws. chunkText_loop oneSentenceText 400 390 160 start chunks = Some ws
           \<and> length ws = 160 \<and> (\<forall>w \<in> set ws. fst (snd w) = 401)"
  using assms
proof (induction "170 - start" arbitrary: start chunks)
  case 0
  then have "length chunks = 160" by simp
  then have "chunkText_loop oneSentenceText 400 390 160 start chunks = Some chunks"
    by (subst chunkText_loop.simps) simp
  with 0 show ?case by simp
next
  case (Suc n)
  then have s: "start < 170" by simp
  define chunk where "chunk = trim (substring oneSentenceText start 401)"
  have ne: "chunk \<noteq> []"
    using chunk_oneSentenceText [of start] s by (simp add: chunk_def)
  have len: "length chunks < 160" "start < 200" "max (Suc start) 11 = Suc start"
    using s Suc.prems by simp_all
  have step: "chunkText_loop oneSentenceText 400 390 160 start chunks
      = chunkText_loop oneSentenceText 400 390 160 (Suc start) (chunks @ [(start, 401, chunk)])"
    using len ne
    by (subst chunkText_loop.simps)
       (simp add: Let_def windowEnd_oneSentenceText length_oneSentenceText
         flip: chunk_def)
  have "\<exists>ws. chunkText_loop oneSentenceText 400 390 160 (Suc start) (chunks @ [(start, 401, chunk)])
           = Some ws \<and> length ws = 160 \<and> (\<forall>w \<in> set ws. fst (snd w) = 401)"
  proof (rule Suc.hyps(1))
    show "n = 170 - Suc start" using Suc.hyps(2) by simp
  qed (use s Suc.prems in auto)
  then show ?case by (simp add: step)
qed

lemma chunkText_windows_oneSentenceText:
  "\<exists>ws. chunkText_windows oneSentenceText 400 390 = Some ws
     \<and> length ws = 160 \<and> (\<forall>w \<in> set ws. fst (snd w) = 401)"
proof -
  define chunk where "chunk = trim (substring oneSentenceText 0 401)"
  have ne: "chunk \<noteq> []"
    using chunk_oneSentenceText [of 0] by (simp add: chunk_def)
  have "CHR ''a'' \<in> set oneSentenceText"
    by (simp add: oneSentenceText_def)
  moreover have "\<not> isSpace (CHR ''a'')"
    by (simp add: isSpace_def)
  ultimately have nonblank: "trim oneSentenceText \<noteq> []"
    unfolding trim_empty_iff by blast
  have m: "maxChunksFor 600 400 390 = 160"
    by (simp add: maxChunksFor_def)
  have "chunkText_loop oneSentenceText 400 390 160 0 []
      = chunkText_loop oneSentenceText 400 390 160 11 [(0, 401, chunk)]"
    using ne
    by (subst chunkText_loop.simps)
       (simp add: Let_def windowEnd_oneSentenceText length_oneSentenceText
         flip: chunk_def)
  moreover have "\<exists>ws. chunkText_loop oneSentenceText 400 390 160 11 [(0, 401, chunk)] = Some ws
           \<and> length ws = 160 \<and> (\<forall>w \<in> set ws. fst (snd w) = 401)"
    by (rule chunkText_loop_oneSentenceText) simp_all
  moreover have "oneSentenceText \<noteq> []"
    by (simp add: oneSentenceText_def)
  ultimately show ?thesis
    using nonblank by (simp add: chunkText_windows_def length_oneSentenceText m)
qed

text \<open>
  The snapping can shorten the advance to a single character. The text is 400 letters, a
  full stop and 199 letters; the chunk size is 400 and the overlap 390. Every window is
  snapped to the full stop and ends at position 401, so each chunk moves the start by one
  character. The limit of 160 chunks is reached at start 170: \<open>chunkText\<close> returns 160
  chunks, and the last letter of the text (position 599) lies in none of their windows.
\<close>

lemma chunkText_one_character_advance:
  "length oneSentenceText = 600
   \<and> maxChunksFor (length oneSentenceText) 400 390 = 160
   \<and> (\<exists>ws. chunkText_windows oneSentenceText 400 390 = Some ws
         \<and> chunkText oneSentenceText 400 390 = Some (map (\<lambda>(start, end, chunk). chunk) ws)
         \<and> length ws = 160
         \<and> list_all (\<lambda>(start, end, chunk). end = 401) ws)
   \<and> \<not> isSpace (oneSentenceText ! 599)
   \<and> \<not> coveredBy (chunkText_windows oneSentenceText 400 390) 599"
proof -
  obtain ws where ws: "chunkText_windows oneSentenceText 400 390 = Some ws"
    "length ws = 160" "\<forall>w \<in> set ws. fst (snd w) = 401"
    using chunkText_windows_oneSentenceText by blast
  have "\<not> positionCovered ws 599"
    using ws(3) by (fastforce simp: positionCovered_def list_ex_iff)
  moreover have "list_all (\<lambda>(start, end, chunk). end = 401) ws"
    using ws(3) by (auto simp: list_all_iff)
  moreover have "maxChunksFor 600 400 390 = 160"
    by (simp add: maxChunksFor_def)
  ultimately show ?thesis
    using ws(1,2) oneSentenceText_last
    by (simp add: coveredBy_def chunkText_def isSpace_def length_oneSentenceText)
qed

text \<open>
  The scan of \<open>lastIndexOf\<close> for a single character: it returns the last position up to
  \<open>from\<close> that holds the character, and the start value when there is none.
\<close>

lemma startsWith_single: "startsWith (c # cs) [x] = (c = x)"
  by (simp add: startsWith_def)

lemma lastIndexScan_char_none:
  assumes "\<forall>q < length s. k + q \<le> from \<longrightarrow> s ! q \<noteq> x"
  shows "lastIndexScan s [x] k from best = best"
  using assms
proof (induction s arbitrary: k)
  case Nil
  then show ?case by simp
next
  case (Cons c cs)
  show ?case
  proof (cases "from < k")
    case True
    then show ?thesis by simp
  next
    case False
    then have "c \<noteq> x"
      using Cons.prems by (auto dest: spec [of _ 0])
    moreover have "\<forall>q < length cs. Suc k + q \<le> from \<longrightarrow> cs ! q \<noteq> x"
    proof (intro allI impI)
      fix q assume "q < length cs" "Suc k + q \<le> from"
      then have "Suc q < length (c # cs)" "k + Suc q \<le> from" by simp_all
      with Cons.prems have "(c # cs) ! Suc q \<noteq> x" by blast
      then show "cs ! q \<noteq> x" by simp
    qed
    ultimately show ?thesis
      using False Cons.IH [of "Suc k"] by (simp add: startsWith_single)
  qed
qed

lemma lastIndexScan_char_last:
  assumes "p < length s" and "s ! p = x" and "k + p \<le> from"
    and "\<forall>q. p < q \<and> q < length s \<and> k + q \<le> from \<longrightarrow> s ! q \<noteq> x"
  shows "lastIndexScan s [x] k from best = int (k + p)"
  using assms
proof (induction s arbitrary: k p best)
  case Nil
  then show ?case by simp
next
  case (Cons c cs)
  have nk: "\<not> from < k" using Cons.prems(3) by simp
  show ?case
  proof (cases p)
    case 0
    then have cx: "c = x" using Cons.prems(2) by simp
    have "\<forall>q < length cs. Suc k + q \<le> from \<longrightarrow> cs ! q \<noteq> x"
    proof (intro allI impI)
      fix q assume "q < length cs" "Suc k + q \<le> from"
      then have "p < Suc q \<and> Suc q < length (c # cs) \<and> k + Suc q \<le> from"
        using 0 by simp
      with Cons.prems(4) have "(c # cs) ! Suc q \<noteq> x" by blast
      then show "cs ! q \<noteq> x" by simp
    qed
    from lastIndexScan_char_none [OF this, of "int k"] show ?thesis
      using nk cx 0 by (simp add: startsWith_single)
  next
    case (Suc p')
    have "lastIndexScan cs [x] (Suc k) from (if c = x then int k else best) = int (Suc k + p')"
    proof (rule Cons.IH)
      show "p' < length cs" using Cons.prems(1) Suc by simp
      show "cs ! p' = x" using Cons.prems(2) Suc by simp
      show "Suc k + p' \<le> from" using Cons.prems(3) Suc by simp
      show "\<forall>q. p' < q \<and> q < length cs \<and> Suc k + q \<le> from \<longrightarrow> cs ! q \<noteq> x"
      proof (intro allI impI)
        fix q assume "p' < q \<and> q < length cs \<and> Suc k + q \<le> from"
        then have "p < Suc q \<and> Suc q < length (c # cs) \<and> k + Suc q \<le> from"
          using Suc by simp
        with Cons.prems(4) have "(c # cs) ! Suc q \<noteq> x" by blast
        then show "cs ! q \<noteq> x" by simp
      qed
    qed
    then show ?thesis
      using nk Suc by (simp add: startsWith_single)
  qed
qed

lemma nth_concat_replicate:
  assumes "i < n * length xs"
  shows "concat (replicate n xs) ! i = xs ! (i mod length xs)"
  using assms
proof (induction n arbitrary: i)
  case 0
  then show ?case by simp
next
  case (Suc n)
  show ?case
  proof (cases "i < length xs")
    case True
    then show ?thesis by (simp add: nth_append)
  next
    case False
    then have "i - length xs < n * length xs"
      using Suc.prems by simp
    from Suc.IH [OF this] False show ?thesis
      by (simp add: nth_append le_mod_geq)
  qed
qed

lemma length_sentence450: "length sentence450 = 450"
  by (simp add: sentence450_def)

lemma nth_sentence450:
  "j < 450 \<Longrightarrow> sentence450 ! j = (if j = 449 then CHR ''.'' else CHR ''a'')"
  by (simp add: sentence450_def nth_append)

lemma length_manySentencesText: "length manySentencesText = 105300"
  by (simp add: manySentencesText_def length_concat length_sentence450 sum_list_replicate)

lemma nth_manySentencesText:
  assumes "i < 105300"
  shows "manySentencesText ! i = (if i mod 450 = 449 then CHR ''.'' else CHR ''a'')"
proof -
  have "i < 234 * length sentence450"
    using assms by (simp add: length_sentence450)
  from nth_concat_replicate [OF this] show ?thesis
    by (simp add: manySentencesText_def length_sentence450 nth_sentence450)
qed

lemma set_manySentencesText: "set manySentencesText \<subseteq> {CHR ''a'', CHR ''.''}"
  by (auto simp: manySentencesText_def sentence450_def)

lemma lastIndexOf_paragraph_many:
  "lastIndexOf manySentencesText [CHR 0x0A, CHR 0x0A] from = - 1"
  unfolding lastIndexOf_def
proof (rule lastIndexScan_no_match)
  show "hd [CHR 0x0A, CHR 0x0A] \<notin> set manySentencesText"
    using set_manySentencesText by auto
qed simp

lemma lastIndexOf_stop_many:
  assumes "p mod 450 = 449" and "p \<le> from" and "from < p + 450" and "p < 105300"
  shows "lastIndexOf manySentencesText ''.'' from = int p"
proof -
  have "lastIndexScan manySentencesText [CHR ''.''] 0 from (- 1) = int (0 + p)"
  proof (rule lastIndexScan_char_last)
    show "p < length manySentencesText"
      using assms(4) by (simp add: length_manySentencesText)
    show "manySentencesText ! p = CHR ''.''"
      using assms(1,4) by (simp add: nth_manySentencesText)
    show "0 + p \<le> from" using assms(2) by simp
    show "\<forall>q. p < q \<and> q < length manySentencesText \<and> 0 + q \<le> from
            \<longrightarrow> manySentencesText ! q \<noteq> CHR ''.''"
    proof (intro allI impI)
      fix q assume q: "p < q \<and> q < length manySentencesText \<and> 0 + q \<le> from"
      have "q mod 450 \<noteq> 449"
      proof
        assume "q mod 450 = 449"
        then have "q mod 450 = p mod 450" using assms(1) by simp
        then have "450 dvd q - p"
          using q by (simp add: mod_eq_dvd_iff_nat)
        then have "450 \<le> q - p"
          using q by (intro dvd_imp_le) simp_all
        with q assms(3) show False by arith
      qed
      with q show "manySentencesText ! q \<noteq> CHR ''.''"
        by (simp add: nth_manySentencesText length_manySentencesText)
    qed
  qed
  then show ?thesis by (simp add: lastIndexOf_def)
qed

lemma windowEnd_manySentencesText_first: "windowEnd manySentencesText 1000 0 = 900"
proof -
  have "lastIndexOf manySentencesText ''.'' 1000 = int 899"
    by (rule lastIndexOf_stop_many) simp_all
  then show ?thesis
    by (simp add: windowEnd_def Let_def length_manySentencesText lastIndexOf_paragraph_many)
qed

lemma windowEnd_manySentencesText:
  assumes "n \<le> 231"
  shows "windowEnd manySentencesText 1000 (450 * n + 250) = 450 * n + 900"
proof -
  have "lastIndexOf manySentencesText ''.'' (450 * n + 250 + 1000) = int (450 * n + 899)"
  proof (rule lastIndexOf_stop_many)
    show "(450 * n + 899) mod 450 = 449" by simp
  qed (use assms in simp_all)
  then show ?thesis
    using assms
    by (simp add: windowEnd_def Let_def length_manySentencesText lastIndexOf_paragraph_many)
qed

lemma manySentencesText_letter:
  assumes "i < 105300" and "i mod 450 \<noteq> 449"
  shows "\<not> isSpace (manySentencesText ! i)"
  using assms by (simp add: nth_manySentencesText isSpace_def)

lemma chunk_manySentencesText:
  assumes "start < e" and "e \<le> 105300" and "start mod 450 \<noteq> 449"
  shows "trim (substring manySentencesText start e) \<noteq> []"
proof (rule window_covers_nonspace [of start start])
  show "\<not> isSpace (manySentencesText ! start)"
    using assms by (intro manySentencesText_letter) simp_all
qed (use assms in \<open>simp_all add: length_manySentencesText\<close>)

lemma chunkText_loop_manySentencesText:
  assumes "1 \<le> n" and "n \<le> 232" and "length chunks = n"
    and "\<forall>w \<in> set chunks. fst (snd w) \<le> 104850"
  shows "\<exists>ws. chunkText_loop manySentencesText 1000 200 232 (450 * n + 250) chunks = Some ws
           \<and> length ws = 232 \<and> (\<forall>w \<in> set ws. fst (snd w) \<le> 104850)"
  using assms
proof (induction "232 - n" arbitrary: n chunks)
  case 0
  then have "length chunks = 232" by simp
  then have "chunkText_loop manySentencesText 1000 200 232 (450 * n + 250) chunks = Some chunks"
    by (subst chunkText_loop.simps) simp
  with 0 show ?case by simp
next
  case (Suc k)
  then have n: "n \<le> 231" by simp
  define start where "start = 450 * n + 250"
  define chunk where "chunk = trim (substring manySentencesText start (450 * n + 900))"
  have "start mod 450 \<noteq> 449"
    by (simp add: start_def)
  then have ne: "chunk \<noteq> []"
    unfolding chunk_def using n by (intro chunk_manySentencesText) (simp_all add: start_def)
  have facts: "start < 105300" "length chunks < 232" "\<not> 105300 \<le> 450 * n + 900"
    "max (Suc start) (450 * n + 900 - 200) = 450 * Suc n + 250"
    using n Suc.prems by (simp_all add: start_def)
  have step: "chunkText_loop manySentencesText 1000 200 232 start chunks
      = chunkText_loop manySentencesText 1000 200 232 (450 * Suc n + 250)
          (chunks @ [(start, 450 * n + 900, chunk)])"
    using facts ne windowEnd_manySentencesText [OF n]
    by (subst chunkText_loop.simps)
       (simp add: Let_def length_manySentencesText flip: chunk_def start_def)
  have "\<exists>ws. chunkText_loop manySentencesText 1000 200 232 (450 * Suc n + 250)
                (chunks @ [(start, 450 * n + 900, chunk)]) = Some ws
           \<and> length ws = 232 \<and> (\<forall>w \<in> set ws. fst (snd w) \<le> 104850)"
  proof (rule Suc.hyps(1))
    show "k = 232 - Suc n" using Suc.hyps(2) by simp
  qed (use n Suc.prems in auto)
  then show ?case by (simp add: step flip: start_def)
qed

lemma chunkText_windows_manySentencesText:
  "\<exists>ws. chunkText_windows manySentencesText 1000 200 = Some ws
     \<and> length ws = 232 \<and> (\<forall>w \<in> set ws. fst (snd w) \<le> 104850)"
proof -
  define chunk where "chunk = trim (substring manySentencesText 0 900)"
  have ne: "chunk \<noteq> []"
    unfolding chunk_def by (intro chunk_manySentencesText) simp_all
  have "manySentencesText ! 0 \<in> set manySentencesText"
    by (intro nth_mem) (simp add: length_manySentencesText)
  moreover have "\<not> isSpace (manySentencesText ! 0)"
    by (intro manySentencesText_letter) simp_all
  ultimately have nonblank: "trim manySentencesText \<noteq> []"
    unfolding trim_empty_iff by blast
  then have nonempty: "manySentencesText \<noteq> []"
    by (auto simp: trim_def)
  have m: "maxChunksFor 105300 1000 200 = 232"
    by (simp add: maxChunksFor_def)
  have "chunkText_loop manySentencesText 1000 200 232 0 []
      = chunkText_loop manySentencesText 1000 200 232 (450 * 1 + 250) [(0, 900, chunk)]"
    using ne
    by (subst chunkText_loop.simps)
       (simp add: Let_def windowEnd_manySentencesText_first length_manySentencesText
         flip: chunk_def)
  moreover have "\<exists>ws. chunkText_loop manySentencesText 1000 200 232 (450 * 1 + 250)
                      [(0, 900, chunk)] = Some ws
           \<and> length ws = 232 \<and> (\<forall>w \<in> set ws. fst (snd w) \<le> 104850)"
    by (rule chunkText_loop_manySentencesText) simp_all
  ultimately show ?thesis
    using nonblank nonempty by (simp add: chunkText_windows_def length_manySentencesText m)
qed

text \<open>
  C5: the code does not do what the claim says. The text is 234 sentences of 450
  characters (449 letters and a full stop), 105300 characters in all; chunk size and
  overlap are 1000 and 200, the values the ingest passes. The safety limit \<open>maxChunks\<close>
  is computed for an advance of \<open>chunkSize - overlap = 800\<close> characters per chunk: 232
  chunks. But every window is snapped back to the last full stop in it: the first is
  \<open>(0, 900)\<close>, and from then on each window is 650 characters long and the start moves by
  450. After 232 chunks the loop stops at the limit, with the last window ending at
  104850: \<open>chunkText\<close> returns, and the last sentence of the text (positions 104850 to
  105299) lies in no window.
\<close>

theorem chunkText_safety_limit_drops_tail:
  "length manySentencesText = 105300
   \<and> maxChunksFor (length manySentencesText) 1000 200 = 232
   \<and> (\<exists>ws. chunkText_windows manySentencesText 1000 200 = Some ws
         \<and> chunkText manySentencesText 1000 200 = Some (map (\<lambda>(start, end, chunk). chunk) ws)
         \<and> length ws = 232
         \<and> list_all (\<lambda>(start, end, chunk). end \<le> 104850) ws)
   \<and> \<not> isSpace (manySentencesText ! 104850)
   \<and> \<not> coveredBy (chunkText_windows manySentencesText 1000 200) 104850"
proof -
  obtain ws where ws: "chunkText_windows manySentencesText 1000 200 = Some ws"
    "length ws = 232" "\<forall>w \<in> set ws. fst (snd w) \<le> 104850"
    using chunkText_windows_manySentencesText by blast
  have "\<not> positionCovered ws 104850"
    using ws(3) by (fastforce simp: positionCovered_def list_ex_iff)
  moreover have "list_all (\<lambda>(start, end, chunk). end \<le> 104850) ws"
    using ws(3) by (auto simp: list_all_iff)
  moreover have "maxChunksFor 105300 1000 200 = 232"
    by (simp add: maxChunksFor_def)
  moreover have "\<not> isSpace (manySentencesText ! 104850)"
    by (intro manySentencesText_letter) simp_all
  ultimately show ?thesis
    using ws(1,2)
    by (simp add: coveredBy_def chunkText_def length_manySentencesText)
qed

section \<open>Properties of the retrieval ranking\<close>








text \<open>
  Lower-casing on Latin-1: the capital E with acute accent (\<open>0xC9\<close>) becomes the small one
  (\<open>0xE9\<close>), and the multiplication sign (\<open>0xD7\<close>) stays.
\<close>

lemma toLowerCase_latin1:
  "toLowerCase [CHR 0xC9, CHR ''c'', CHR ''O'', CHR ''L'', CHR ''e'', CHR 0xD7]
     = [CHR 0xE9, CHR ''c'', CHR ''o'', CHR ''l'', CHR ''e'', CHR 0xD7]"
  by code_simp




text \<open>
  What \<open>getRelevantChunks\<close> returns, in its three cases: nothing for a query without a
  word of two characters or more, nothing when a pattern throws, and otherwise the first
  \<open>maxChunks\<close> chunks of the ranking.
\<close>

lemma getRelevantChunks_no_words:
  "queryWordsOf query = [] \<Longrightarrow> getRelevantChunks rx query maxChunks allChunks = []"
  by (simp add: getRelevantChunks_def)

lemma getRelevantChunks_pattern_throws:
  "patternThrows rx (queryWordsOf query) allChunks
     \<Longrightarrow> getRelevantChunks rx query maxChunks allChunks = []"
  by (simp add: getRelevantChunks_def)








section \<open>Properties of the sequence numbers\<close>

text \<open>
  Every segment keeps the invariant: a media frame is sent by \<open>sendMedia\<close> only, which
  puts the counter on the frame and increments it in the same segment; nothing else
  changes the counter.
\<close>

lemma mediaSeqs_append: "mediaSeqs (xs @ ys) = mediaSeqs xs @ mediaSeqs ys"
  by (induction xs rule: mediaSeqs.induct) simp_all

lemma seqInv_cong:
  "wire w' = wire w \<Longrightarrow> sequenceNumber (sess w') = sequenceNumber (sess w) \<Longrightarrow> seqInv w \<Longrightarrow> seqInv w'"
  by (simp add: seqInv_def)

lemma seqInv_sendMedia: "seqInv w \<Longrightarrow> seqInv (sendMedia chunk w)"
  by (simp add: seqInv_def sendMedia_def mediaSeqs_append)

lemma seqInv_sendMarkFrame: "seqInv w \<Longrightarrow> seqInv (sendMarkFrame name w)"
  by (simp add: seqInv_def sendMarkFrame_def mediaSeqs_append)

lemma seqInv_streams_update [simp]: "seqInv (w\<lparr>streams := x\<rparr>) = seqInv w"
  and seqInv_silences_update [simp]: "seqInv (w\<lparr>silences := y\<rparr>) = seqInv w"
  and seqInv_turns_update [simp]: "seqInv (w\<lparr>turns := z\<rparr>) = seqInv w"
  and seqInv_waiters_update [simp]: "seqInv (w\<lparr>waiters := u\<rparr>) = seqInv w"
  and seqInv_sttCalls_update [simp]: "seqInv (w\<lparr>sttCalls := v\<rparr>) = seqInv w"
  and seqInv_llmPrompts_update [simp]: "seqInv (w\<lparr>llmPrompts := p\<rparr>) = seqInv w"
  and seqInv_wsOpen_update [simp]: "seqInv (w\<lparr>wsOpen := b\<rparr>) = seqInv w"
  by (simp_all add: seqInv_def)

lemma seqInv_sess_update:
  "sequenceNumber s = sequenceNumber (sess w) \<Longrightarrow> seqInv (w\<lparr>sess := s\<rparr>) = seqInv w"
  by (simp add: seqInv_def)

lemma seqInv_sendFallbackSilence_loop:
  "seqInv w \<Longrightarrow> seqInv (sendFallbackSilence_loop k chunks i w)"
  by (simp add: sendFallbackSilence_loop_def seqInv_sendMedia seqInv_sendMarkFrame)

lemma seqInv_sendFallbackSilence: "seqInv w \<Longrightarrow> seqInv (sendFallbackSilence w)"
  by (simp add: sendFallbackSilence_def Let_def seqInv_sendFallbackSilence_loop
      split: option.splits)

lemma seqInv_streamTTSAudio_settled:
  "seqInv w \<Longrightarrow> seqInv (streamTTSAudio_settled k t ok w)"
  by (simp add: streamTTSAudio_settled_def Let_def seqInv_sendFallbackSilence seqInv_sess_update
      split: stream_owner.splits)

lemma seqInv_streamTTSAudio_mark: "seqInv w \<Longrightarrow> seqInv (streamTTSAudio_mark k t w)"
  by (simp add: streamTTSAudio_mark_def seqInv_streamTTSAudio_settled seqInv_sendMarkFrame)

lemma seqInv_streamTTSAudio_loop: "seqInv w \<Longrightarrow> seqInv (streamTTSAudio_loop k t chunks i w)"
  by (simp add: streamTTSAudio_loop_def seqInv_streamTTSAudio_mark seqInv_sendMedia
      seqInv_sess_update)

lemma seqInv_streamTTSAudio_audio: "seqInv w \<Longrightarrow> seqInv (streamTTSAudio_audio k t pcm w)"
  by (simp add: streamTTSAudio_audio_def seqInv_streamTTSAudio_loop split: option.splits)

lemma seqInv_streamTTSAudio: "seqInv w \<Longrightarrow> seqInv (streamTTSAudio who txt mark w)"
  by (simp add: streamTTSAudio_def Let_def seqInv_streamTTSAudio_settled)

lemma seqInv_triggerGreeting: "seqInv w \<Longrightarrow> seqInv (triggerGreeting d w)"
  by (simp add: triggerGreeting_def seqInv_streamTTSAudio seqInv_sess_update)

lemma seqInv_processUserAudio: "seqInv w \<Longrightarrow> seqInv (fst (processUserAudio w))"
  by (simp add: processUserAudio_def Let_def seqInv_sess_update split: option.splits prod.splits)

lemma seqInv_startTurn: "seqInv w \<Longrightarrow> seqInv (startTurn w)"
proof -
  assume a: "seqInv w"
  then have "seqInv (w\<lparr>sess := (sess w)\<lparr>processingAudio := True\<rparr>\<rparr>)"
    by (simp add: seqInv_sess_update)
  from seqInv_processUserAudio [OF this] show ?thesis
    by (simp add: startTurn_def seqInv_sess_update split_beta)
qed

lemma seqInv_turnReturned: "seqInv w \<Longrightarrow> seqInv (turnReturned n w)"
  by (simp add: turnReturned_def seqInv_sess_update)

lemma seqInv_setTurn [simp]: "seqInv (setTurn n f w) = seqInv w"
  by (simp add: setTurn_def)

lemma seqInv_handlers:
  assumes "seqInv w"
  shows "seqInv (handleClearEvent w)" "seqInv (storeStreamSid m w)"
    "seqInv (storeCustomParameters m w)"
  using assms
  by (simp_all add: handleClearEvent_def storeStreamSid_def storeCustomParameters_def
      seqInv_sess_update split: option.splits)

lemma seqInv_handleConnectedEvent: "seqInv w \<Longrightarrow> seqInv (handleConnectedEvent d m w)"
  by (simp add: handleConnectedEvent_def Let_def seqInv_triggerGreeting seqInv_handlers
      seqInv_sess_update)

lemma seqInv_handleStartEvent: "seqInv w \<Longrightarrow> seqInv (handleStartEvent d m w)"
  by (simp add: handleStartEvent_def Let_def seqInv_triggerGreeting seqInv_handlers
      seqInv_sess_update)

lemma seqInv_captureStreamSid: "seqInv w \<Longrightarrow> seqInv (captureStreamSid d m w)"
  by (simp add: captureStreamSid_def Let_def seqInv_triggerGreeting seqInv_sess_update)

lemma seqInv_handleMediaEvent: "seqInv w \<Longrightarrow> seqInv (handleMediaEvent d m w)"
  by (simp add: handleMediaEvent_def Let_def seqInv_captureStreamSid seqInv_startTurn
      seqInv_sess_update split: option.splits)

lemma seqInv_handleStopEvent: "seqInv w \<Longrightarrow> seqInv (handleStopEvent w)"
  by (simp add: handleStopEvent_def Let_def seqInv_startTurn seqInv_sess_update)

lemma seqInv_onMessage: "seqInv w \<Longrightarrow> seqInv (onMessage d m w)"
  by (simp add: onMessage_def seqInv_handlers seqInv_handleConnectedEvent
      seqInv_handleStartEvent seqInv_handleMediaEvent seqInv_handleStopEvent)

lemma seqInv_startFragment: "seqInv w \<Longrightarrow> seqInv (startFragment n txt final w)"
  by (simp add: startFragment_def Let_def seqInv_streamTTSAudio)

lemma seqInv_speak: "seqInv w \<Longrightarrow> seqInv (speak n txt final w)"
  by (simp add: speak_def seqInv_startFragment split: option.splits)

lemma seqInv_onToken: "seqInv w \<Longrightarrow> seqInv (onToken n token w)"
  by (simp add: onToken_def Let_def seqInv_speak split: option.splits prod.splits)

lemma seqInv_onToken_complete: "seqInv w \<Longrightarrow> seqInv (onToken_complete n w)"
  by (simp add: onToken_complete_def seqInv_speak)

lemma seqInv_deliver:
  "seqInv (fst wr) \<Longrightarrow> seqInv (fst (foldl (deliverDelta n) wr deltas))"
  by (induction deltas arbitrary: wr) (simp_all add: deliverDelta_def seqInv_onToken)

lemma seqInv_resumeOne: "seqInv w \<Longrightarrow> seqInv (resumeOne w pc)"
  by (simp add: resumeOne_def resume_def seqInv_startFragment split: continuation.splits)

lemma seqInv_foldl_resumeOne: "seqInv w \<Longrightarrow> seqInv (foldl resumeOne w ws)"
  by (induction ws arbitrary: w) (simp_all add: seqInv_resumeOne)

lemma seqInv_resumeWaiters: "seqInv w \<Longrightarrow> seqInv (resumeWaiters w)"
  by (simp add: resumeWaiters_def seqInv_foldl_resumeOne)

lemma seqInv_turn_steps:
  assumes "seqInv w"
  shows "seqInv (sttReturned d n tx w)" "seqInv (personaLoaded n u pc w)"
    "seqInv (chunksFound n u cs w)" "seqInv (llmFailed n w)" "seqInv (fetchReturned n ok w)"
    "seqInv (llmRead n fr deltas w)" "seqInv (llmEnded d n fr deltas w)"
proof -
  show "seqInv (sttReturned d n tx w)"
    using assms
    by (simp add: sttReturned_def seqInv_turnReturned seqInv_sess_update ensureSystemMessage_def
        split: option.splits)
  show "seqInv (personaLoaded n u pc w)"
    using assms by (simp add: personaLoaded_def seqInv_sess_update ensureSystemMessage_def)
  show "seqInv (chunksFound n u cs w)"
    using assms by (simp add: chunksFound_def)
  show f: "seqInv (llmFailed n w)"
    using assms by (simp add: llmFailed_def seqInv_turnReturned seqInv_onToken_complete)
  show "seqInv (fetchReturned n ok w)"
    using assms f by (simp add: fetchReturned_def)
  show "seqInv (llmRead n fr deltas w)"
    using seqInv_deliver [of "(w, fr)" n deltas] assms
    by (simp add: llmRead_def split_beta)
  show "seqInv (llmEnded d n fr deltas w)"
    using seqInv_deliver [of "(w, fr)" n "take 1 deltas"] assms
    by (simp add: llmEnded_def Let_def seqInv_turnReturned seqInv_onToken_complete
        seqInv_sess_update split_beta)
qed

lemma seqInv_exec: "seqInv w \<Longrightarrow> exec d a w = Some w' \<Longrightarrow> seqInv w'"
  by (cases a)
     (auto simp: seqInv_onMessage seqInv_streamTTSAudio_audio seqInv_streamTTSAudio_settled
       seqInv_streamTTSAudio_loop seqInv_sendFallbackSilence_loop seqInv_turn_steps
       split: option.splits stream_phase.splits turn_phase.splits)

lemma seqInv_step: "seqInv w \<Longrightarrow> seqInv (step d a w)"
  by (cases "exec d a w") (auto simp: step_def seqInv_resumeWaiters dest: seqInv_exec)

lemma seqInv_run: "seqInv w \<Longrightarrow> seqInv (run d acts w)"
  by (induction acts arbitrary: w) (simp_all add: seqInv_step)

text \<open>
  C3. For every session (every sample rate, every deployment) and every sequence of events
  and completions, the sequence numbers on the media frames sent, in the order of sending
  and whatever sent them (greeting, fragments of a reply, fallback silence), are
  \<open>0, 1, 2, \<dots>\<close>: they start at 0, none is repeated and none is skipped; and the session's
  counter is the number of media frames sent.
\<close>

theorem sequence_numbers_contiguous:
  "mediaSeqs (wire (run d acts (newWorld rate)))
     = [0..<length (mediaSeqs (wire (run d acts (newWorld rate))))]
   \<and> sequenceNumber (sess (run d acts (newWorld rate)))
     = length (mediaSeqs (wire (run d acts (newWorld rate))))"
proof -
  have "seqInv (newWorld rate)"
    by (simp add: seqInv_def newWorld_def newSession_def)
  then have "seqInv (run d acts (newWorld rate))"
    by (rule seqInv_run)
  then have eq: "mediaSeqs (wire (run d acts (newWorld rate)))
      = [0..<sequenceNumber (sess (run d acts (newWorld rate)))]"
    by (simp add: seqInv_def)
  then have "length (mediaSeqs (wire (run d acts (newWorld rate))))
      = sequenceNumber (sess (run d acts (newWorld rate)))"
    by (metis diff_zero length_upt)
  with eq show ?thesis by simp
qed

section \<open>Properties of the example runs\<close>

text \<open>The framing of the audio buffers of the examples, and their scan by the silence gate.\<close>

lemma chunkPCM_loop_done: "length pcm \<le> i \<Longrightarrow> chunkPCM_loop pcm s i chunks = Some chunks"
  by (subst chunkPCM_loop.simps) simp

lemma chunkPCM_loop_step:
  "i < length pcm \<Longrightarrow> chunkPCM_loop pcm s i chunks =
     chunkPCM_loop pcm s (i + s) (chunks @ [slice pcm i (min (i + s) (length pcm))])"
  by (subst chunkPCM_loop.simps) simp

lemma chunkPCM_100: "chunkPCM (replicate 100 b) 3200 = Some [replicate 100 b]"
  by (simp add: chunkPCM_def chunkPCM_loop_step chunkPCM_loop_done slice_def)

lemma chunkPCM_3300:
  "chunkPCM (replicate 3300 b) 3200 = Some [replicate 3200 b, replicate 100 b]"
  by (simp add: chunkPCM_def chunkPCM_loop_step chunkPCM_loop_done slice_def)

lemma chunkPCM_7000:
  "chunkPCM (replicate 7000 b) 3200 = Some [replicate 3200 b, replicate 3200 b, replicate 600 b]"
  by (simp add: chunkPCM_def chunkPCM_loop_step chunkPCM_loop_done slice_def)

lemma chunkPCM_16000:
  "chunkPCM (replicate 16000 b) 3200
     = Some [replicate 3200 b, replicate 3200 b, replicate 3200 b, replicate 3200 b,
             replicate 3200 b]"
  by (simp add: chunkPCM_def chunkPCM_loop_step chunkPCM_loop_done slice_def)

lemma silenceScan_loud:
  "silenceScan (replicate (2 * k) 127) (n, m)
     = Some (n + k, if k = 0 then m else max m 32639)"
proof (induction k arbitrary: n m)
  case 0
  then show ?case by simp
next
  case (Suc k)
  have "readInt16LE 127 127 = 32639"
    by (simp add: readInt16LE_def)
  with Suc show ?case
    by (simp add: Let_def max_def)
qed

lemma silenceScan_loudAudio: "silenceScan loudAudio (0, 0) = Some (16000, 32639)"
  using silenceScan_loud [of 16000 0 0] by (simp add: loudAudio_def)

lemma length_loudAudio: "length loudAudio = 32000"
  by (simp add: loudAudio_def)

lemma not_mostlySilence_loud: "\<not> mostlySilence 16000 16000"
  by (simp add: mostlySilence_def)

lemma list_update_Cons_numeral:
  "(x # xs)[numeral k := y] = x # xs[pred_numeral k := y]"
  by (simp add: numeral_eq_Suc)

text \<open>What the string operations of the pipeline give on the texts of the examples.\<close>

lemma string_facts:
  "trim [] = []"
  "cleanGreetingText ''Hi.'' = ''Hi.''"
  "trim ''Hi.'' = ''Hi.''"
  "trim helloTranscript = helloTranscript"
  "helloTranscript \<noteq> []"
  "trim shortReply = shortReply"
  "shortReply \<noteq> []"
  "flushDecision shortReply = None"
  "flushDecision sentence1 = Some (trim sentence1, [])"
  "flushDecision sentence2 = Some (trim sentence2, [])"
  "flushDecision sentence3 = Some (trim sentence3, [])"
  "trim (trim sentence1) = trim sentence1"
  "trim (trim sentence2) = trim sentence2"
  "trim (trim sentence3) = trim sentence3"
  "sentence1 \<noteq> []" "sentence2 \<noteq> []" "sentence3 \<noteq> []"
  "trim sentence1 \<noteq> []" "trim sentence2 \<noteq> []" "trim sentence3 \<noteq> []"
  "trim question1 = question1" "question1 \<noteq> []"
  "trim question2 = question2" "question2 \<noteq> []"
  "trim answer1 = answer1" "answer1 \<noteq> []"
  "flushDecision answer1 = Some (answer1, [])"
  "str_includes personaText ''Relevant context'' = False"
  by code_simp+

lemmas run_defs =
  step_def onMessage_def handleConnectedEvent_def handleStartEvent_def handleClearEvent_def
  handleStopEvent_def handleMediaEvent_def captureStreamSid_def
  storeStreamSid_def storeCustomParameters_def triggerGreeting_def greetingText_def
  streamTTSAudio_def streamTTSAudio_audio_def streamTTSAudio_loop_def streamTTSAudio_mark_def
  streamTTSAudio_settled_def sendFallbackSilence_def sendFallbackSilence_loop_def
  sendMedia_def sendMarkFrame_def chunkSizeFor_def
  startTurn_def processUserAudio_def turnReturned_def
  sttReturned_def personaLoaded_def chunksFound_def fetchReturned_def llmRead_def llmEnded_def
  llmFailed_def deliverDelta_def onToken_def onToken_complete_def speak_def startFragment_def
  setTurn_def resumeWaiters_def resumeOne_def resume_def settled_def
  generateSystemPrompt_def ensureSystemMessage_def
  streamAt_def silenceAt_def turnPhaseAt_def
  newWorld_def newSession_def eventMessage_def connectedMessage_def mediaMessage_def
  startMessage_def demoDeployment_def param_def Let_def
  chunkPCM_100 chunkPCM_3300 chunkPCM_7000 chunkPCM_16000
  silenceScan_loudAudio length_loudAudio not_mostlySilence_loud list_update_Cons_numeral
  string_facts isPersonaEntry_def buildPrompt_def promptLine_def

lemma run_append: "run d (as @ bs) w = run d bs (run d as w)"
  by (induction as arbitrary: w) simp_all

text \<open>
  The run with the failed greeting: five frames of silence, numbered 0 to 4, and the two
  frames of the second greeting, numbered 5 and 6.
\<close>

lemma fallbackTrace_wire:
  "feasible (demoDeployment noPostProcessing) fallbackTrace (newWorld 8000)
   \<and> wire (run (demoDeployment noPostProcessing) fallbackTrace (newWorld 8000))
     = [Media (Some ''S1'') 0 (replicate 3200 0), Media (Some ''S1'') 1 (replicate 3200 0),
        Media (Some ''S1'') 2 (replicate 3200 0), Media (Some ''S1'') 3 (replicate 3200 0),
        Media (Some ''S1'') 4 (replicate 3200 0), Mark (Some ''S1'') ''fallback_silence_done'',
        Media (Some ''S1'') 5 (replicate 3200 5), Media (Some ''S1'') 6 (replicate 100 5),
        Mark (Some ''S1'') ''assistant_reply_done'']"
  by (simp add: fallbackTrace_def run_defs)

theorem sequence_numbers_contiguous_witness:
  "feasible (demoDeployment noPostProcessing) fallbackTrace (newWorld 8000)
   \<and> mediaSeqs (wire (run (demoDeployment noPostProcessing) fallbackTrace (newWorld 8000)))
     = [0, 1, 2, 3, 4, 5, 6]
   \<and> sequenceNumber (sess (run (demoDeployment noPostProcessing) fallbackTrace (newWorld 8000)))
     = 7"
proof -
  have len: "length (mediaSeqs
      (wire (run (demoDeployment noPostProcessing) fallbackTrace (newWorld 8000)))) = 7"
    by (simp add: fallbackTrace_wire)
  have "[0..<7] = [0, 1, 2, 3, 4, 5, 6 :: nat]"
    by (simp add: upt_rec)
  with sequence_numbers_contiguous
    [of "demoDeployment noPostProcessing" fallbackTrace 8000] len fallbackTrace_wire
  show ?thesis by simp
qed

section \<open>Properties of the streaming of replies\<close>

text \<open>
  C1: the code does not do what the claim says. In the run \<open>bargeInTrace\<close> the \<^verbatim>\<open>clear\<close>
  event arrives while the final fragment of the turn is being streamed, after the first of
  its three chunks (frame 1). At the next chunk boundary the loop of \<^verbatim>\<open>streamTTSAudio\<close> sees
  \<^verbatim>\<open>pendingClear\<close>, sets it back to false and leaves the loop: no further media frame is
  sent, as the claim says. But the test before the mark reads the flag that the loop has
  just reset, so the mark \<^verbatim>\<open>assistant_reply_done\<close> of the turn is sent all the same: it is
  the last frame on the wire. (The first mark on the wire is that of the greeting.)
\<close>

theorem mark_sent_after_barge_in:
  "feasible (demoDeployment pp) bargeInTrace (newWorld 8000)
   \<and> wire (run (demoDeployment pp) beforeBargeInTrace (newWorld 8000))
     = [Media (Some ''S1'') 0 (replicate 100 9), Mark (Some ''S1'') ''assistant_reply_done'',
        Media (Some ''S1'') 1 (replicate 3200 1)]
   \<and> wire (run (demoDeployment pp) bargeInTrace (newWorld 8000))
     = [Media (Some ''S1'') 0 (replicate 100 9), Mark (Some ''S1'') ''assistant_reply_done'',
        Media (Some ''S1'') 1 (replicate 3200 1), Mark (Some ''S1'') ''assistant_reply_done'']
   \<and> pendingClear (sess (run (demoDeployment pp) bargeInTrace (newWorld 8000))) = False"
  by (simp add: bargeInTrace_def beforeBargeInTrace_def run_defs)

text \<open>
  C2: the code does not do what the claim says. In the run \<open>threeSentencesTrace\<close> the
  fragments "First one.", "Second one." and "Third one." are flushed in this order. The
  calls of \<^verbatim>\<open>onToken\<close> for the second and the third fragment both await the promise of the
  first; when it settles, both start their stream, and the two streams run side by side.
  On the wire, frames 1 and 2 are the first fragment (bytes 1), frames 3 and 5 the
  second (bytes 2) and frames 4 and 6 the third (bytes 3): a frame of the third fragment
  is sent before the last frame of the second.
\<close>

theorem fragments_interleave:
  "feasible (demoDeployment pp) threeSentencesTrace (newWorld 8000)
   \<and> wire (run (demoDeployment pp) threeSentencesTrace (newWorld 8000))
     = [Media (Some ''S1'') 0 (replicate 100 9), Mark (Some ''S1'') ''assistant_reply_done'',
        Media (Some ''S1'') 1 (replicate 3200 1), Media (Some ''S1'') 2 (replicate 100 1),
        Media (Some ''S1'') 3 (replicate 3200 2), Media (Some ''S1'') 4 (replicate 3200 3),
        Media (Some ''S1'') 5 (replicate 100 2), Media (Some ''S1'') 6 (replicate 100 3)]"
  by (simp add: threeSentencesTrace_def run_defs)

section \<open>Properties of the conversation history\<close>

lemma noUserEntry_fields [simp]:
  "noUserEntry (w\<lparr>streams := x\<rparr>) = noUserEntry w"
  "noUserEntry (w\<lparr>silences := y\<rparr>) = noUserEntry w"
  "noUserEntry (w\<lparr>turns := z\<rparr>) = noUserEntry w"
  "noUserEntry (w\<lparr>waiters := u\<rparr>) = noUserEntry w"
  "noUserEntry (w\<lparr>sttCalls := v\<rparr>) = noUserEntry w"
  "noUserEntry (w\<lparr>llmPrompts := p\<rparr>) = noUserEntry w"
  "noUserEntry (w\<lparr>wsOpen := b\<rparr>) = noUserEntry w"
  "noUserEntry (w\<lparr>wire := fs\<rparr>) = noUserEntry w"
  by (simp_all add: noUserEntry_def)

lemma noUserEntry_sess:
  "conversationHistory s = conversationHistory (sess w) \<Longrightarrow> noUserEntry (w\<lparr>sess := s\<rparr>) = noUserEntry w"
  by (simp add: noUserEntry_def)

lemma noUserEntry_sendMedia [simp]: "noUserEntry (sendMedia chunk w) = noUserEntry w"
  by (simp add: sendMedia_def noUserEntry_def)

lemma noUserEntry_sendMarkFrame [simp]: "noUserEntry (sendMarkFrame name w) = noUserEntry w"
  by (simp add: sendMarkFrame_def)

lemma noUserEntry_sendFallbackSilence_loop [simp]:
  "noUserEntry (sendFallbackSilence_loop k chunks i w) = noUserEntry w"
  by (simp add: sendFallbackSilence_loop_def)

lemma noUserEntry_sendFallbackSilence [simp]:
  "noUserEntry (sendFallbackSilence w) = noUserEntry w"
  by (simp add: sendFallbackSilence_def Let_def split: option.splits)

lemma noUserEntry_streamTTSAudio_settled [simp]:
  "noUserEntry (streamTTSAudio_settled k t ok w) = noUserEntry w"
  by (simp add: streamTTSAudio_settled_def Let_def noUserEntry_sess split: stream_owner.splits)

lemma noUserEntry_streamTTSAudio_mark [simp]:
  "noUserEntry (streamTTSAudio_mark k t w) = noUserEntry w"
  by (simp add: streamTTSAudio_mark_def)

lemma noUserEntry_streamTTSAudio_loop [simp]:
  "noUserEntry (streamTTSAudio_loop k t chunks i w) = noUserEntry w"
  by (simp add: streamTTSAudio_loop_def noUserEntry_sess)

lemma noUserEntry_streamTTSAudio_audio [simp]:
  "noUserEntry (streamTTSAudio_audio k t pcm w) = noUserEntry w"
  by (simp add: streamTTSAudio_audio_def split: option.splits)

lemma noUserEntry_streamTTSAudio [simp]:
  "noUserEntry (streamTTSAudio who txt mark w) = noUserEntry w"
  by (simp add: streamTTSAudio_def Let_def)

lemma noUserEntry_triggerGreeting [simp]:
  "noUserEntry (triggerGreeting d w) = noUserEntry w"
  by (simp add: triggerGreeting_def noUserEntry_sess)

lemma noUserEntry_processUserAudio [simp]:
  "noUserEntry (fst (processUserAudio w)) = noUserEntry w"
  by (simp add: processUserAudio_def Let_def noUserEntry_sess split: option.splits prod.splits)

lemma noUserEntry_startTurn [simp]: "noUserEntry (startTurn w) = noUserEntry w"
proof -
  have "noUserEntry (fst (processUserAudio (w\<lparr>sess := (sess w)\<lparr>processingAudio := True\<rparr>\<rparr>)))
          = noUserEntry w"
    by (simp add: noUserEntry_sess)
  then show ?thesis
    by (simp add: startTurn_def noUserEntry_sess split_beta)
qed

lemma noUserEntry_turnReturned [simp]: "noUserEntry (turnReturned n w) = noUserEntry w"
  by (simp add: turnReturned_def noUserEntry_sess)

lemma noUserEntry_setTurn [simp]: "noUserEntry (setTurn n f w) = noUserEntry w"
  by (simp add: setTurn_def)

lemma noUserEntry_handlers [simp]:
  "noUserEntry (handleClearEvent w) = noUserEntry w"
  "noUserEntry (storeStreamSid m w) = noUserEntry w"
  "noUserEntry (storeCustomParameters m w) = noUserEntry w"
  by (simp_all add: handleClearEvent_def storeStreamSid_def storeCustomParameters_def
      noUserEntry_sess split: option.splits)

lemma noUserEntry_handleConnectedEvent [simp]:
  "noUserEntry (handleConnectedEvent d m w) = noUserEntry w"
  by (simp add: handleConnectedEvent_def Let_def noUserEntry_sess)

lemma noUserEntry_handleStartEvent [simp]:
  "noUserEntry (handleStartEvent d m w) = noUserEntry w"
  by (simp add: handleStartEvent_def Let_def noUserEntry_sess)

lemma noUserEntry_captureStreamSid [simp]:
  "noUserEntry (captureStreamSid d m w) = noUserEntry w"
  by (simp add: captureStreamSid_def Let_def noUserEntry_sess)

lemma noUserEntry_handleMediaEvent [simp]:
  "noUserEntry (handleMediaEvent d m w) = noUserEntry w"
  by (simp add: handleMediaEvent_def Let_def noUserEntry_sess split: option.splits)

lemma noUserEntry_handleStopEvent [simp]:
  "noUserEntry (handleStopEvent w) = noUserEntry w"
  by (simp add: handleStopEvent_def Let_def noUserEntry_sess)

lemma noUserEntry_onMessage [simp]: "noUserEntry (onMessage d m w) = noUserEntry w"
  by (simp add: onMessage_def)

lemma noUserEntry_startFragment [simp]:
  "noUserEntry (startFragment n txt final w) = noUserEntry w"
  by (simp add: startFragment_def Let_def)

lemma noUserEntry_speak [simp]: "noUserEntry (speak n txt final w) = noUserEntry w"
  by (simp add: speak_def split: option.splits)

lemma noUserEntry_onToken [simp]: "noUserEntry (onToken n token w) = noUserEntry w"
  by (simp add: onToken_def Let_def split: option.splits prod.splits)

lemma noUserEntry_onToken_complete [simp]:
  "noUserEntry (onToken_complete n w) = noUserEntry w"
  by (simp add: onToken_complete_def)

lemma noUserEntry_deliver [simp]:
  "noUserEntry (fst (foldl (deliverDelta n) wr deltas)) = noUserEntry (fst wr)"
  by (induction deltas arbitrary: wr) (simp_all add: deliverDelta_def)

lemma noUserEntry_resumeOne [simp]: "noUserEntry (resumeOne w pc) = noUserEntry w"
  by (simp add: resumeOne_def resume_def split: continuation.splits)

lemma noUserEntry_foldl_resumeOne [simp]:
  "noUserEntry (foldl resumeOne w ws) = noUserEntry w"
  by (induction ws arbitrary: w) simp_all

lemma noUserEntry_resumeWaiters [simp]: "noUserEntry (resumeWaiters w) = noUserEntry w"
  by (simp add: resumeWaiters_def)

lemma updateFirst_roles:
  "list_all (\<lambda>e. role e \<noteq> User) xs
     \<Longrightarrow> list_all (\<lambda>e. role e \<noteq> User) (updateFirst P (\<lambda>e. e\<lparr>content := c\<rparr>) xs)"
  by (induction xs) simp_all

lemma noUserEntry_ensureSystemMessage:
  "noUserEntry w \<Longrightarrow> noUserEntry (w\<lparr>sess := ensureSystemMessage personaContent (sess w)\<rparr>)"
  by (simp add: noUserEntry_def ensureSystemMessage_def updateFirst_roles)

lemma noUserEntry_append_assistant:
  "noUserEntry w \<Longrightarrow>
     noUserEntry (w\<lparr>sess := (sess w)\<lparr>conversationHistory :=
       conversationHistory (sess w) @ [\<lparr>role = Assistant, content = c\<rparr>]\<rparr>\<rparr>)"
  by (simp add: noUserEntry_def)

lemma noUserEntry_turn_steps:
  assumes "noUserEntry w"
  shows "noUserEntry (sttReturned d n tx w)" "noUserEntry (personaLoaded n u pc w)"
    "noUserEntry (chunksFound n u cs w)" "noUserEntry (llmFailed n w)"
    "noUserEntry (fetchReturned n ok w)" "noUserEntry (llmRead n fr deltas w)"
    "noUserEntry (llmEnded d n fr deltas w)"
proof -
  show "noUserEntry (sttReturned d n tx w)"
    using assms noUserEntry_ensureSystemMessage [OF assms]
    by (simp add: sttReturned_def split: option.splits)
  show "noUserEntry (personaLoaded n u pc w)"
    using noUserEntry_ensureSystemMessage [OF assms] by (simp add: personaLoaded_def)
  show "noUserEntry (chunksFound n u cs w)"
    using assms by (simp add: chunksFound_def)
  show "noUserEntry (llmFailed n w)"
    using assms by (simp add: llmFailed_def)
  show "noUserEntry (fetchReturned n ok w)"
    using assms by (simp add: fetchReturned_def llmFailed_def)
  show "noUserEntry (llmRead n fr deltas w)"
    using noUserEntry_deliver [of n "(w, fr)" deltas] assms
    by (simp add: llmRead_def split_beta)
  show "noUserEntry (llmEnded d n fr deltas w)"
  proof -
    define w1 where "w1 = fst (foldl (deliverDelta n) (w, fr) (take 1 deltas))"
    define fullReply1 where "fullReply1 = snd (foldl (deliverDelta n) (w, fr) (take 1 deltas))"
    define w2 where "w2 = (if fullReply1 \<noteq> [] then onToken_complete n w1 else w1)"
    have "noUserEntry w1"
      using noUserEntry_deliver [of n "(w, fr)" "take 1 deltas"] assms by (simp add: w1_def)
    then have w2: "noUserEntry w2"
      by (simp add: w2_def)
    have "llmEnded d n fr deltas w =
        turnReturned n
          (if trim fullReply1 \<noteq> []
           then w2\<lparr>sess := (sess w2)\<lparr>conversationHistory :=
                  conversationHistory (sess w2)
                    @ [\<lparr>role = Assistant, content = postProcessReply d (trim fullReply1)\<rparr>]\<rparr>\<rparr>
           else w2)"
      by (simp add: llmEnded_def Let_def split_beta w1_def w2_def fullReply1_def)
    then show ?thesis
      using w2 noUserEntry_append_assistant [OF w2] by simp
  qed
qed

lemma noUserEntry_exec: "noUserEntry w \<Longrightarrow> exec d a w = Some w' \<Longrightarrow> noUserEntry w'"
  by (cases a)
     (auto simp: noUserEntry_turn_steps
       split: option.splits stream_phase.splits turn_phase.splits)

lemma noUserEntry_step: "noUserEntry w \<Longrightarrow> noUserEntry (step d a w)"
  by (cases "exec d a w") (auto simp: step_def dest: noUserEntry_exec)

lemma noUserEntry_run: "noUserEntry w \<Longrightarrow> noUserEntry (run d acts w)"
  by (induction acts arbitrary: w) (simp_all add: noUserEntry_step)

text \<open>
  No segment of the event loop stores an entry of role \<open>User\<close>: the history is written only
  by \<^verbatim>\<open>ensureSystemMessage\<close> (the system entry) and at the end of
  \<^verbatim>\<open>generateWithGeminiStreaming\<close> (the assistant entry). So in every run, the history never
  holds an entry of role \<open>User\<close>.
\<close>

lemma user_entry_never_stored:
  "list_all (\<lambda>e. role e \<noteq> User) (conversationHistory (sess (run d acts (newWorld rate))))"
proof -
  have "noUserEntry (newWorld rate)"
    by (simp add: noUserEntry_def newWorld_def newSession_def)
  from noUserEntry_run [OF this] show ?thesis
    by (simp add: noUserEntry_def)
qed

text \<open>
  C4: the code does not do what the claim says. In the first turn of the run the
  transcript is "What is the price?" and the reply "It costs 999 rupees."; after it the
  history holds the system entry and the assistant entry with the processed reply, and no
  user entry. The prompt of the second turn therefore shows the earlier reply without the
  question it answered. (This holds for every post-processing function \<open>pp\<close>.)
\<close>

theorem user_text_not_in_history:
  "feasible (demoDeployment pp) (firstTurnTrace @ secondTurnTrace) (newWorld 8000)
   \<and> conversationHistory (sess (run (demoDeployment pp) firstTurnTrace (newWorld 8000)))
     = [\<lparr>role = System, content = personaText\<rparr>, \<lparr>role = Assistant, content = pp answer1\<rparr>]
   \<and> llmPrompts (run (demoDeployment pp) (firstTurnTrace @ secondTurnTrace) (newWorld 8000))
     = [personaText @ newline @ newline
          @ ''User: '' @ question1 @ newline @ ''Assistant:'',
        personaText @ newline @ newline
          @ ''Assistant: '' @ pp answer1 @ newline
          @ ''User: '' @ question2 @ newline @ ''Assistant:'']"
  by (simp add: firstTurnTrace_def secondTurnTrace_def run_defs)

section \<open>Properties of the inbound audio\<close>

lemma audioBuffer_triggerGreeting [simp]:
  "audioBuffer (sess (triggerGreeting d w)) = audioBuffer (sess w)"
  by (simp add: triggerGreeting_def streamTTSAudio_def streamTTSAudio_settled_def Let_def)

lemma processingAudio_triggerGreeting [simp]:
  "processingAudio (sess (triggerGreeting d w)) = processingAudio (sess w)"
  by (simp add: triggerGreeting_def streamTTSAudio_def streamTTSAudio_settled_def Let_def)

lemma sampleRate_triggerGreeting [simp]:
  "sampleRate (sess (triggerGreeting d w)) = sampleRate (sess w)"
  by (simp add: triggerGreeting_def streamTTSAudio_def streamTTSAudio_settled_def Let_def)


lemma captureStreamSid_fields [simp]:
  "audioBuffer (sess (captureStreamSid d m w)) = audioBuffer (sess w)"
  "processingAudio (sess (captureStreamSid d m w)) = processingAudio (sess w)"
  "sampleRate (sess (captureStreamSid d m w)) = sampleRate (sess w)"
  by (simp_all add: captureStreamSid_def Let_def)




section \<open>Properties of the silence gate\<close>

lemma silenceScan_zeros:
  assumes "\<forall>b \<in> set buf. b = 0"
  shows "silenceScan buf (n, m) = (if even (length buf) then Some (n, m) else None)"
  using assms
proof (induction buf "(n, m)" arbitrary: n m rule: silenceScan.induct)
  case (1)
  then show ?case by simp
next
  case (2 b)
  then show ?case by simp
next
  case (3 lo hi rest nonZeroSamples maxAmplitude)
  then have z: "lo = 0" "hi = 0" "\<forall>b \<in> set rest. b = 0"
    by simp_all
  have "readInt16LE 0 0 = 0"
    by (simp add: readInt16LE_def)
  with 3 z show ?case
    by (simp add: Let_def)
qed

text \<open>
  The gate on silence that is not empty: when the buffered chunks hold at least one byte
  and every byte is zero, \<^verbatim>\<open>processUserAudio\<close> returns without transcribing (the ratio of
  silence is 1; with an odd number of bytes the last read throws, and the \<^verbatim>\<open>catch\<close> ends
  the call).
\<close>

lemma silent_audio_skips_stt:
  assumes "concat (audioBuffer (sess w)) \<noteq> []"
    and "\<forall>b \<in> set (concat (audioBuffer (sess w))). b = 0"
  shows "sttCalls (fst (processUserAudio w)) = sttCalls w
         \<and> turns (fst (processUserAudio w)) = turns w
         \<and> snd (processUserAudio w)"
proof -
  let ?audio = "concat (audioBuffer (sess w))"
  have ne: "length (audioBuffer (sess w)) \<noteq> 0"
    using assms(1) by auto
  note scan = silenceScan_zeros [OF assms(2), of 0 0]
  show ?thesis
  proof (cases "pendingClear (sess w)")
    case True
    with ne show ?thesis by (simp add: processUserAudio_def)
  next
    case False
    show ?thesis
    proof (cases "even (length ?audio)")
      case odd: False
      with ne False scan show ?thesis
        by (simp add: processUserAudio_def Let_def)
    next
      case True
      then have "length ?audio div 2 \<noteq> 0"
        using assms(1) by (cases "length ?audio") (auto elim!: evenE)
      then have "mostlySilence 0 (length ?audio div 2)"
        by (simp add: mostlySilence_def)
      with ne False True scan show ?thesis
        by (simp add: processUserAudio_def Let_def)
    qed
  qed
qed


end
